theory Spec2Isabelle
  imports Main
begin

section \<open>Values, labels and tables\<close>

text \<open>
  The program is \<^verbatim>\<open>prettypandas/styler.py\<close>: the class \<^verbatim>\<open>PrettyPandas\<close>, a subclass of the
  pandas \<^verbatim>\<open>Styler\<close>. Its methods register summaries and formatters and merge them into
  the table when the table is rendered.

  A cell holds a number, a string, Python's \<^verbatim>\<open>None\<close> or the float \<^verbatim>\<open>NaN\<close>. Numbers are
  integers here: no method of the class computes with them, they are only handed to the
  aggregation and formatting functions, which are parameters of the model.
  Labels (row labels, column labels, summary titles) are strings.
\<close>

datatype val = Num int | Str string | PyNone | NaN

type_synonym label = string

text \<open>Keyword arguments, forwarded untouched to aggregation and formatting functions.\<close>

type_synonym kwargs = "(string \<times> val) list"

datatype error =
    ValueError string
  | KeyError string
  | IndexError
  | InvalidIndexError

text \<open>
  A pandas \<^verbatim>\<open>DataFrame\<close>: the row labels (\<^verbatim>\<open>df.index\<close>), the column labels
  (\<^verbatim>\<open>df.columns\<close>), the cells row by row, and the level names of both axes
  (\<^verbatim>\<open>df.index.names\<close>, \<^verbatim>\<open>df.columns.names\<close>). Labels may repeat, as pandas allows.
\<close>

record dataframe =
  index :: "label list"
  columns :: "label list"
  cells :: "val list list"
  index_names :: "string option list"
  columns_names :: "string option list"

text \<open>
  Every pandas table has one row of cells per row label and, in each row, one cell per
  column label. The record does not enforce this, so it is a predicate.
\<close>

definition wf_df :: "dataframe \<Rightarrow> bool" where
  "wf_df d =
     (length (cells d) = length (index d)
      \<and> list_all (\<lambda>r. length r = length (columns d)) (cells d))"

text \<open>\<^verbatim>\<open>isnull\<close>: pandas counts both \<^verbatim>\<open>None\<close> and \<^verbatim>\<open>NaN\<close> as missing.\<close>

definition isnull :: "val \<Rightarrow> bool" where
  "isnull v = (v = PyNone \<or> v = NaN)"

subsection \<open>The pandas operations the class calls\<close>

text \<open>
  pandas is not part of the repository. The operations below are the ones the methods call,
  with the behaviour pandas documents for them; each is written out for tables with repeated
  labels too, since nothing in the class rules them out.
\<close>

definition column_values :: "dataframe \<Rightarrow> nat \<Rightarrow> val list" where
  "column_values d j = map (\<lambda>r. r ! j) (cells d)"

text \<open>\<^verbatim>\<open>df.iteritems()\<close> yields (column label, column) left to right;
  \<^verbatim>\<open>df.iterrows()\<close> yields (row label, row) top to bottom.\<close>

definition iteritems :: "dataframe \<Rightarrow> (label \<times> val list) list" where
  "iteritems d = map (\<lambda>j. (columns d ! j, column_values d j)) [0..<length (columns d)]"

definition iterrows :: "dataframe \<Rightarrow> (label \<times> val list) list" where
  "iterrows d = map (\<lambda>i. (index d ! i, cells d ! i)) [0..<length (index d)]"

text \<open>
  An \<^verbatim>\<open>axis\<close> argument, of \<^verbatim>\<open>multi_summary\<close> or of a formatter: \<^verbatim>\<open>None\<close>, an
  integer, or a string. \<^verbatim>\<open>multi_summary\<close> tests it against 0 and 1 (pandas also reads
  \<^verbatim>\<open>'index'\<close> and \<^verbatim>\<open>'columns'\<close>), the formatters against \<^verbatim>\<open>'columns'\<close> and
  \<^verbatim>\<open>'rows'\<close>.
\<close>

datatype axis = AxisNone | AxisInt int | AxisStr string

text \<open>
  When pandas builds a column from a list of values it infers the column's type. A list
  that holds a number (or \<^verbatim>\<open>NaN\<close>) and otherwise only numbers, \<^verbatim>\<open>NaN\<close> and \<^verbatim>\<open>None\<close>
  becomes a float column, in which every \<^verbatim>\<open>None\<close> is stored as \<^verbatim>\<open>NaN\<close>; any other list
  becomes an object column and keeps its \<^verbatim>\<open>None\<close>. (The float column also shows the
  number 4 as 4.0; numbers are not told apart that way here.)
\<close>

definition numeric :: "val \<Rightarrow> bool" where
  "numeric v = (case v of Num n \<Rightarrow> True | NaN \<Rightarrow> True | _ \<Rightarrow> False)"

definition infer_column :: "val list \<Rightarrow> val list" where
  "infer_column vals =
     (if list_ex numeric vals \<and> list_all (\<lambda>v. numeric v \<or> v = PyNone) vals
      then map (\<lambda>v. if v = PyNone then NaN else v) vals
      else vals)"

text \<open>
  A one-column table titled \<open>t\<close> over the labels \<open>names\<close>: what
  \<^verbatim>\<open>Series.to_frame(t)\<close> and \<^verbatim>\<open>pd.DataFrame(data={t: vals}, index=names)\<close> build,
  the column's type inferred from the values.
\<close>

definition summary_frame :: "label \<Rightarrow> label list \<Rightarrow> string option list \<Rightarrow> val list \<Rightarrow> dataframe" where
  "summary_frame t names nm vals =
     \<lparr>index = names, columns = [t], cells = map (\<lambda>v. [v]) (infer_column vals),
      index_names = nm, columns_names = [None]\<rparr>"

text \<open>
  \<^verbatim>\<open>df.apply(f, axis=axis, **kwargs).to_frame(t)\<close>: with axis 0 (also named
  \<^verbatim>\<open>'index'\<close> or \<^verbatim>\<open>'rows'\<close>) the function is applied to each column and the result is
  labelled by the columns; with axis 1 (also named \<^verbatim>\<open>'columns'\<close>) to each row. Any other
  axis makes pandas raise \<^verbatim>\<open>ValueError\<close>.
\<close>

definition df_apply_to_frame ::
    "(val list \<Rightarrow> val) \<Rightarrow> axis \<Rightarrow> label \<Rightarrow> dataframe \<Rightarrow> error + dataframe" where
  "df_apply_to_frame f ax t d =
     (if ax = AxisInt 0 \<or> ax = AxisStr ''index'' \<or> ax = AxisStr ''rows'' then
        Inr (summary_frame t (columns d) (columns_names d) (map (\<lambda>p. f (snd p)) (iteritems d)))
      else if ax = AxisInt 1 \<or> ax = AxisStr ''columns'' then
        Inr (summary_frame t (index d) (index_names d) (map (\<lambda>p. f (snd p)) (iterrows d)))
      else Inl (ValueError ''No axis named''))"

text \<open>\<^verbatim>\<open>df.T\<close>, the transpose.\<close>

definition T :: "dataframe \<Rightarrow> dataframe" where
  "T d = \<lparr>index = columns d, columns = index d,
          cells = map (\<lambda>j. column_values d j) [0..<length (columns d)],
          index_names = columns_names d, columns_names = index_names d\<rparr>"

text \<open>
  The union of label lists in order of first appearance, which is how \<^verbatim>\<open>pd.concat\<close> joins
  the axis it does not concatenate along (outer join, unsorted).
\<close>

fun union_labels :: "label list \<Rightarrow> label list \<Rightarrow> label list" where
  "union_labels acc [] = acc"
| "union_labels acc (x # xs) =
     (if x \<in> set acc then union_labels acc xs else union_labels (acc @ [x]) xs)"

text \<open>One row, re-read under new column labels: a label the row does not have gives \<^verbatim>\<open>NaN\<close>.\<close>

definition reindex_row :: "label list \<Rightarrow> label list \<Rightarrow> val list \<Rightarrow> val list" where
  "reindex_row old new r =
     map (\<lambda>l. case map_of (zip old r) l of None \<Rightarrow> NaN | Some v \<Rightarrow> v) new"

text \<open>
  \<^verbatim>\<open>pd.concat(ds, axis=0, ignore_index=False)\<close>: the rows of all tables, one below the
  other. When all tables have the same column labels these are kept as they are. Otherwise
  the tables are re-read under the union of the column labels, which pandas refuses
  (\<^verbatim>\<open>InvalidIndexError\<close>) when a table has repeated column labels. The level names of the
  result are those of the first table here; pandas may drop them, and the one caller
  overwrites them afterwards.
\<close>

definition concat_rows :: "dataframe list \<Rightarrow> error + dataframe" where
  "concat_rows ds =
     (case ds of
        [] \<Rightarrow> Inl (ValueError ''No objects to concatenate'')
      | d # rest \<Rightarrow>
          if list_all (\<lambda>x. columns x = columns d) rest then
            Inr \<lparr>index = concat (map index ds), columns = columns d,
                 cells = concat (map cells ds),
                 index_names = index_names d, columns_names = columns_names d\<rparr>
          else if list_ex (\<lambda>x. \<not> distinct (columns x)) ds then Inl InvalidIndexError
          else
            (let u = union_labels [] (concat (map columns ds)) in
             Inr \<lparr>index = concat (map index ds), columns = u,
                  cells = concat (map (\<lambda>x. map (reindex_row (columns x) u) (cells x)) ds),
                  index_names = index_names d, columns_names = columns_names d\<rparr>))"

text \<open>
  \<^verbatim>\<open>pd.concat(ds, axis=1, ignore_index=False)\<close>: the columns of all tables, side by side,
  rows matched by label. With equal row labels everywhere the rows are matched by position;
  otherwise by label under the union of the row labels, a table without the label
  contributing \<^verbatim>\<open>NaN\<close>, and repeated row labels refused.
\<close>

definition concat_cols :: "dataframe list \<Rightarrow> error + dataframe" where
  "concat_cols ds =
     (case ds of
        [] \<Rightarrow> Inl (ValueError ''No objects to concatenate'')
      | d # rest \<Rightarrow>
          if list_all (\<lambda>x. index x = index d) rest then
            Inr \<lparr>index = index d, columns = concat (map columns ds),
                 cells = map (\<lambda>i. concat (map (\<lambda>x. cells x ! i) ds)) [0..<length (index d)],
                 index_names = index_names d, columns_names = columns_names d\<rparr>
          else if list_ex (\<lambda>x. \<not> distinct (index x)) ds then Inl InvalidIndexError
          else
            (let u = union_labels [] (concat (map index ds)) in
             Inr \<lparr>index = u, columns = concat (map columns ds),
                  cells = map (\<lambda>l. concat (map (\<lambda>x.
                            case map_of (zip (index x) (cells x)) l of
                              None \<Rightarrow> replicate (length (columns x)) NaN
                            | Some r \<Rightarrow> r) ds)) u,
                  index_names = index_names d, columns_names = columns_names d\<rparr>))"

text \<open>
  \<^verbatim>\<open>df[labels]\<close> with a list of labels: for each requested label in turn, every column
  carrying that label; \<^verbatim>\<open>KeyError\<close> when a requested label is not a column.
\<close>

definition positions_of :: "label list \<Rightarrow> label \<Rightarrow> nat list" where
  "positions_of ls l = filter (\<lambda>j. ls ! j = l) [0..<length ls]"

definition getitem_cols :: "label list \<Rightarrow> dataframe \<Rightarrow> error + dataframe" where
  "getitem_cols ls d =
     (case find (\<lambda>l. l \<notin> set (columns d)) ls of
        Some l \<Rightarrow> Inl (KeyError l)
      | None \<Rightarrow>
          (let pos = concat (map (positions_of (columns d)) ls) in
           Inr (d\<lparr>columns := map (\<lambda>j. columns d ! j) pos,
                  cells := map (\<lambda>r. map (\<lambda>j. r ! j) pos) (cells d)\<rparr>)))"

text \<open>
  \<^verbatim>\<open>df.loc[r, c] = v\<close>: every cell in a row labelled \<open>r\<close> and a column labelled \<open>c\<close>
  takes the value. A label the table does not have is added first, as a new row or column
  of \<^verbatim>\<open>NaN\<close> (pandas enlarges the table on such an assignment).
\<close>

definition ensure_row :: "label \<Rightarrow> dataframe \<Rightarrow> dataframe" where
  "ensure_row r d =
     (if r \<in> set (index d) then d
      else d\<lparr>index := index d @ [r], cells := cells d @ [replicate (length (columns d)) NaN]\<rparr>)"

definition ensure_col :: "label \<Rightarrow> dataframe \<Rightarrow> dataframe" where
  "ensure_col c d =
     (if c \<in> set (columns d) then d
      else d\<lparr>columns := columns d @ [c], cells := map (\<lambda>row. row @ [NaN]) (cells d)\<rparr>)"

definition set_in_row :: "label list \<Rightarrow> label \<Rightarrow> val \<Rightarrow> val list \<Rightarrow> val list" where
  "set_in_row cols c v row = map (\<lambda>j. if cols ! j = c then v else row ! j) [0..<length row]"

definition loc_set :: "label \<Rightarrow> label \<Rightarrow> val \<Rightarrow> dataframe \<Rightarrow> dataframe" where
  "loc_set r c v d0 =
     (let d = ensure_col c (ensure_row r d0) in
      d\<lparr>cells := map (\<lambda>i. if index d ! i = r then set_in_row (columns d) c v (cells d ! i)
                            else cells d ! i) [0..<length (cells d)]\<rparr>)"

text \<open>
  \<^verbatim>\<open>df.loc[:, ls] = df.loc[:, ls].applymap(f)\<close> and
  \<^verbatim>\<open>df.loc[ls, :] = df.loc[ls, :].applymap(f)\<close>, for labels \<open>ls\<close> that are all in the
  table: every cell of a selected column (row) is replaced by its image under \<open>f\<close>.
  On a table with repeated column labels pandas refuses the assignment
  (\<^verbatim>\<open>ValueError\<close>, setting with non-unique columns); the two definitions do not write that
  refusal out and describe the assignment on tables with distinct column labels.
\<close>

definition applymap_cols :: "(val \<Rightarrow> val) \<Rightarrow> label list \<Rightarrow> dataframe \<Rightarrow> dataframe" where
  "applymap_cols f ls d =
     d\<lparr>cells := map (\<lambda>row. map (\<lambda>j. if columns d ! j \<in> set ls then f (row ! j) else row ! j)
                               [0..<length row]) (cells d)\<rparr>"

definition applymap_rows :: "(val \<Rightarrow> val) \<Rightarrow> label list \<Rightarrow> dataframe \<Rightarrow> dataframe" where
  "applymap_rows f ls d =
     d\<lparr>cells := map (\<lambda>i. if index d ! i \<in> set ls then map f (cells d ! i) else cells d ! i)
                    [0..<length (cells d)]\<rparr>"

section \<open>The class\<close>

text \<open>
  A CSS rule of \<^verbatim>\<open>table_styles\<close>: \<^verbatim>\<open>{'selector': ..., 'props': ...}\<close>.
\<close>

record style =
  selector :: string
  props :: "(string \<times> string) list"

text \<open>
  The attributes of the pandas \<^verbatim>\<open>Styler\<close> the methods read or write: \<^verbatim>\<open>self.data\<close>,
  \<^verbatim>\<open>self.index\<close>, \<^verbatim>\<open>self.columns\<close>, \<^verbatim>\<open>self.table_styles\<close>.
\<close>

record styler =
  data :: dataframe
  self_index :: "label list"
  self_columns :: "label list"
  table_styles :: "style list"

text \<open>
  \<^verbatim>\<open>Formatter = namedtuple("Formatter", "subset, exclude, axis, function")\<close>. The axis is
  whatever the caller passed (the default is \<^verbatim>\<open>'columns'\<close>); the function is the closure
  \<^verbatim>\<open>fn\<close> built by \<^verbatim>\<open>_format_cells\<close>.
\<close>

record formatter =
  f_subset :: "label list option"
  f_exclude :: "label list option"
  f_axis :: axis
  f_function :: "val \<Rightarrow> val"

text \<open>\<^verbatim>\<open>class PrettyPandas(Styler)\<close>: the Styler's attributes and the four of its own.\<close>

record pretty_pandas = styler +
  summary_rows :: "dataframe list"
  summary_cols :: "dataframe list"
  formatters :: "formatter list"
  replace_all_nans_with :: "val option"

definition DEFAULT_BACKGROUND :: string where
  "DEFAULT_BACKGROUND = ''#8883''"

definition DEFAULT_BORDER_COLOUR :: string where
  "DEFAULT_BORDER_COLOUR = ''#c0c0c0''"

definition HEADER_PROPERTIES :: "(string \<times> string) list" where
  "HEADER_PROPERTIES = [(''background'', DEFAULT_BACKGROUND), (''font-weight'', ''500'')]"

definition SUMMARY_PROPERTIES :: "(string \<times> string) list" where
  "SUMMARY_PROPERTIES = HEADER_PROPERTIES"

definition STYLES :: "style list" where
  "STYLES =
     [\<lparr>selector = ''th'', props = HEADER_PROPERTIES\<rparr>,
      \<lparr>selector = ''tr'', props = [(''background'', ''none'')]\<rparr>,
      \<lparr>selector = ''td'', props = [(''text-align'', ''right''), (''min-width'', ''3em'')]\<rparr>,
      \<lparr>selector = ''*'', props = [(''border-color'', DEFAULT_BORDER_COLOUR)]\<rparr>]"

definition NO_INDEX_STYLES :: "style list" where
  "NO_INDEX_STYLES =
     [\<lparr>selector = ''.row_heading'', props = [(''display'', ''none'')]\<rparr>,
      \<lparr>selector = ''.blank'', props = [(''display'', ''none'')]\<rparr>]"

text \<open>
  \<^verbatim>\<open>__init__\<close>: the summary and formatter lists default to empty, the table styles are
  \<^verbatim>\<open>STYLES\<close> followed by the caller's, and by the styles hiding the index when
  \<^verbatim>\<open>show_index\<close> is false.
\<close>

definition init ::
    "dataframe \<Rightarrow> dataframe list \<Rightarrow> dataframe list \<Rightarrow> formatter list \<Rightarrow> val option \<Rightarrow> bool \<Rightarrow>
     style list \<Rightarrow> pretty_pandas" where
  "init d srows scols fmts repl show_index user_styles =
     \<lparr>data = d, self_index = index d, self_columns = columns d,
      table_styles = STYLES @ user_styles @ (if show_index then [] else NO_INDEX_STYLES),
      summary_rows = srows, summary_cols = scols, formatters = fmts,
      replace_all_nans_with = repl\<rparr>"

subsection \<open>Adding summaries\<close>

text \<open>
  The body of \<^verbatim>\<open>multi_summary\<close> below its first test, that is for an axis that is not
  \<^verbatim>\<open>None\<close>. \<open>summary_output\<close> is the loop over \<^verbatim>\<open>zip(funcs, titles)\<close> that fills
  \<^verbatim>\<open>output\<close>; it raises what \<^verbatim>\<open>apply\<close> raises.
\<close>

definition summary_names :: "axis \<Rightarrow> dataframe \<Rightarrow> label list" where
  "summary_names ax d = (if ax = AxisInt 0 then columns d else index d)"

definition iter_fn :: "axis \<Rightarrow> dataframe \<Rightarrow> (label \<times> val list) list" where
  "iter_fn ax d = (if ax = AxisInt 0 then iteritems d else iterrows d)"

text \<open>The level names that go with \<^verbatim>\<open>summary_names\<close>, an index of the table.\<close>

definition summary_level_names :: "axis \<Rightarrow> dataframe \<Rightarrow> string option list" where
  "summary_level_names ax d = (if ax = AxisInt 0 then columns_names d else index_names d)"

definition effective_subset :: "axis \<Rightarrow> label list option \<Rightarrow> label list option \<Rightarrow> dataframe \<Rightarrow> label list option" where
  "effective_subset ax subs excl d =
     (case (excl, subs) of
        (Some ex, None) \<Rightarrow> Some (filter (\<lambda>n. n \<notin> set ex) (summary_names ax d))
      | _ \<Rightarrow> subs)"

text \<open>
  The list \<^verbatim>\<open>summary_vals\<close>: the function's value for an item of the subset, \<^verbatim>\<open>None\<close>
  for any other. The table built from it stores the \<^verbatim>\<open>None\<close> as \<open>infer_column\<close> says.
\<close>

definition summary_vals :: "(val list \<Rightarrow> val) \<Rightarrow> label list \<Rightarrow> axis \<Rightarrow> dataframe \<Rightarrow> val list" where
  "summary_vals f sub ax d =
     map (\<lambda>(item_name, vals). if item_name \<in> set sub then f vals else PyNone) (iter_fn ax d)"

fun summary_output ::
    "((kwargs \<Rightarrow> val list \<Rightarrow> val) \<times> label) list \<Rightarrow> axis \<Rightarrow> label list option \<Rightarrow> kwargs \<Rightarrow>
     dataframe \<Rightarrow> error + dataframe list" where
  "summary_output [] ax subs kw d = Inr []"
| "summary_output ((f, t) # fts) ax subs kw d =
     (case (case subs of
              None \<Rightarrow> df_apply_to_frame (f kw) ax t d
            | Some sub \<Rightarrow>
                Inr (summary_frame t (summary_names ax d) (summary_level_names ax d)
                       (summary_vals (f kw) sub ax d))) of
        Inl e \<Rightarrow> Inl e
      | Inr frame \<Rightarrow>
          (case summary_output fts ax subs kw d of
             Inl e \<Rightarrow> Inl e
           | Inr frames \<Rightarrow> Inr (frame # frames)))"

definition multi_summary_axis ::
    "(kwargs \<Rightarrow> val list \<Rightarrow> val) list \<Rightarrow> label list \<Rightarrow> axis \<Rightarrow> label list option \<Rightarrow>
     label list option \<Rightarrow> kwargs \<Rightarrow> pretty_pandas \<Rightarrow> error + pretty_pandas" where
  "multi_summary_axis funcs titles ax subs excl kw st =
     (case summary_output (zip funcs titles) ax
             (effective_subset ax subs excl (data st)) kw (data st) of
        Inl e \<Rightarrow> Inl e
      | Inr output \<Rightarrow>
          if ax = AxisInt 0 then Inr (st\<lparr>summary_rows := summary_rows st @ map T output\<rparr>)
          else if ax = AxisInt 1 then Inr (st\<lparr>summary_cols := summary_cols st @ output\<rparr>)
          else Inr st)"

text \<open>
  \<^verbatim>\<open>multi_summary(funcs, titles, axis=0, subset=None, exclude=None, **kwargs)\<close>. With
  \<^verbatim>\<open>axis=None\<close> the method calls itself with axis 0 and then, on the result, with axis 1,
  passing \<^verbatim>\<open>funcs\<close>, \<^verbatim>\<open>titles\<close> and \<^verbatim>\<open>**kwargs\<close>; \<^verbatim>\<open>subset\<close> and \<^verbatim>\<open>exclude\<close> are
  named parameters, are not in \<^verbatim>\<open>kwargs\<close>, and so take their defaults in both calls. In
  the last branch the \<^verbatim>\<open>ValueError\<close> is built and dropped (there is no \<^verbatim>\<open>raise\<close>).
  An exception leaves the object as it was: nothing is assigned before the last test.
\<close>

definition multi_summary ::
    "(kwargs \<Rightarrow> val list \<Rightarrow> val) list \<Rightarrow> label list \<Rightarrow> axis \<Rightarrow> label list option \<Rightarrow>
     label list option \<Rightarrow> kwargs \<Rightarrow> pretty_pandas \<Rightarrow> error + pretty_pandas" where
  "multi_summary funcs titles ax subs excl kw st =
     (if ax = AxisNone then
        (case multi_summary_axis funcs titles (AxisInt 0) None None kw st of
           Inl e \<Rightarrow> Inl e
         | Inr st' \<Rightarrow> multi_summary_axis funcs titles (AxisInt 1) None None kw st')
      else multi_summary_axis funcs titles ax subs excl kw st)"

text \<open>\<^verbatim>\<open>summary(func, title, axis, **kwargs)\<close> is \<^verbatim>\<open>multi_summary([func], [title], axis, **kwargs)\<close>.\<close>

definition summary ::
    "(kwargs \<Rightarrow> val list \<Rightarrow> val) \<Rightarrow> label \<Rightarrow> axis \<Rightarrow> kwargs \<Rightarrow> pretty_pandas \<Rightarrow> error + pretty_pandas" where
  "summary func title ax kw st = multi_summary [func] [title] ax None None kw st"

subsection \<open>Registering and applying formatters\<close>

text \<open>
  \<^verbatim>\<open>_format_cells(func, subset=None, exclude=None, axis='columns', **kwargs)\<close>: when a
  replacement for missing values is configured and the caller gave none, it is added to the
  keyword arguments; the closure of \<^verbatim>\<open>func\<close> over the keyword arguments is appended to
  \<^verbatim>\<open>self.formatters\<close>. Nothing is checked and nothing can fail.
\<close>

definition format_cells ::
    "(kwargs \<Rightarrow> val \<Rightarrow> val) \<Rightarrow> label list option \<Rightarrow> label list option \<Rightarrow> axis \<Rightarrow> kwargs \<Rightarrow>
     pretty_pandas \<Rightarrow> pretty_pandas" where
  "format_cells func subs excl ax kw st =
     (let kw' = (case replace_all_nans_with st of
                   Some v \<Rightarrow> if ''replace_nan_with'' \<in> set (map fst kw) then kw
                             else kw @ [(''replace_nan_with'', v)]
                 | None \<Rightarrow> kw)
      in st\<lparr>formatters := formatters st @
               [\<lparr>f_subset = subs, f_exclude = excl, f_axis = ax, f_function = func kw'\<rparr>]\<rparr>)"

definition axis_error :: error where
  "axis_error = ValueError ''axis must be one of columns or rows''"

text \<open>
  The labels one formatter is applied to, on the table \<open>d\<close>: \<^verbatim>\<open>ValueError\<close> for an axis
  that is neither \<^verbatim>\<open>'columns'\<close> nor \<^verbatim>\<open>'rows'\<close>; \<open>None\<close> where the loop says
  \<^verbatim>\<open>continue\<close> (a subset was given and none of its labels is in the table); otherwise the
  subset (by default all labels of the axis) without the excluded labels.
\<close>

definition axis_labels :: "axis \<Rightarrow> dataframe \<Rightarrow> error + label list" where
  "axis_labels ax d =
     (if ax = AxisStr ''columns'' then Inr (columns d)
      else if ax = AxisStr ''rows'' then Inr (index d)
      else Inl axis_error)"

definition target_labels :: "formatter \<Rightarrow> dataframe \<Rightarrow> error + label list option" where
  "target_labels f d =
     (case axis_labels (f_axis f) d of
        Inl e \<Rightarrow> Inl e
      | Inr idx \<Rightarrow>
          (case (case f_subset f of
                   None \<Rightarrow> Some idx
                 | Some s \<Rightarrow>
                     (let s' = filter (\<lambda>x. x \<in> set idx) s in if s' = [] then None else Some s')) of
             None \<Rightarrow> Inr None
           | Some sub \<Rightarrow>
               Inr (Some (case f_exclude f of
                            None \<Rightarrow> sub
                          | Some ex \<Rightarrow> filter (\<lambda>x. x \<notin> set ex) sub))))"

text \<open>
  The loop of \<^verbatim>\<open>_apply_formatters\<close> over \<^verbatim>\<open>self.formatters\<close>, on \<^verbatim>\<open>self.data\<close>. It
  returns the table as it stands when the loop ends or raises.
\<close>

fun apply_formatters_loop :: "formatter list \<Rightarrow> dataframe \<Rightarrow> (error + unit) \<times> dataframe" where
  "apply_formatters_loop [] d = (Inr (), d)"
| "apply_formatters_loop (f # fs) d =
     (case target_labels f d of
        Inl e \<Rightarrow> (Inl e, d)
      | Inr None \<Rightarrow> apply_formatters_loop fs d
      | Inr (Some ls) \<Rightarrow>
          apply_formatters_loop fs
            (if f_axis f = AxisStr ''columns'' then applymap_cols (f_function f) ls d
             else applymap_rows (f_function f) ls d))"

definition apply_formatters :: "pretty_pandas \<Rightarrow> (error + unit) \<times> pretty_pandas" where
  "apply_formatters st =
     (case apply_formatters_loop (formatters st) (data st) of
        (r, d) \<Rightarrow> (r, st\<lparr>data := d\<rparr>))"

subsection \<open>Merging the summaries\<close>

text \<open>Decimal digits of a number, for \<^verbatim>\<open>'tr:nth-child({})'.format(index)\<close>.\<close>

definition digit :: "nat \<Rightarrow> char" where
  "digit n = ''0123456789'' ! n"

function string_of_nat :: "nat \<Rightarrow> string" where
  "string_of_nat n =
     (if n < 10 then [digit n] else string_of_nat (n div 10) @ [digit (n mod 10)])"
  by pat_completeness auto
termination
  by (relation "measure id") auto

text \<open>
  \<^verbatim>\<open>[series.columns[0] for series in self.summary_cols]\<close> and the same over the row
  summaries' \<^verbatim>\<open>index[0]\<close>: \<^verbatim>\<open>IndexError\<close> on a table without labels on that axis.
\<close>

fun first_labels :: "label list list \<Rightarrow> error + label list" where
  "first_labels [] = Inr []"
| "first_labels ([] # lss) = Inl IndexError"
| "first_labels ((l # ls) # lss) =
     (case first_labels lss of Inl e \<Rightarrow> Inl e | Inr r \<Rightarrow> Inr (l # r))"

text \<open>
  The rules the two loops over \<^verbatim>\<open>enumerate(self.summary_rows)\<close> and
  \<^verbatim>\<open>enumerate(self.summary_cols)\<close> append with \<^verbatim>\<open>_append_selector\<close>, one per summary:
  \<^verbatim>\<open>self.table_styles.append({'selector': selector, 'props': props})\<close>.
\<close>

definition row_selectors :: "nat \<Rightarrow> nat \<Rightarrow> style list" where
  "row_selectors rows n =
     map (\<lambda>i. \<lparr>selector = ''tr:nth-child('' @ string_of_nat (rows + i + 1) @ '')'',
               props = SUMMARY_PROPERTIES\<rparr>) [0..<n]"

definition col_selectors :: "nat \<Rightarrow> nat \<Rightarrow> nat \<Rightarrow> style list" where
  "col_selectors cols ix_cols n =
     map (\<lambda>i. \<lparr>selector = ''td:nth-child('' @ string_of_nat (cols + ix_cols + i + 1) @ '')'',
               props = SUMMARY_PROPERTIES\<rparr>) [0..<n]"

text \<open>The loop over \<^verbatim>\<open>product(summary_rownames, summary_colnames)\<close> that blanks the shared cells.\<close>

definition blank_shared :: "label list \<Rightarrow> label list \<Rightarrow> dataframe \<Rightarrow> dataframe" where
  "blank_shared rownames colnames d =
     foldl (\<lambda>d' (r, c). loc_set r c (Str []) d') d (List.product rownames colnames)"

text \<open>
  \<^verbatim>\<open>_apply_summaries\<close>. The method assigns \<^verbatim>\<open>self.data\<close> and appends to
  \<^verbatim>\<open>self.table_styles\<close> as it goes, so the object returned with an error is the object as
  it stands at the statement that raises.
\<close>

definition apply_summaries :: "pretty_pandas \<Rightarrow> (error + unit) \<times> pretty_pandas" where
  "apply_summaries st =
     (let d = data st; colnames = columns d in
      case first_labels (map columns (summary_cols st)) of
        Inl e \<Rightarrow> (Inl e, st)
      | Inr summary_colnames \<Rightarrow>
      (case first_labels (map index (summary_rows st)) of
        Inl e \<Rightarrow> (Inl e, st)
      | Inr summary_rownames \<Rightarrow>
      (let rows = length (index d); cols = length (columns d); ix_cols = length (index_names d) in
       case concat_cols (d # summary_cols st) of
        Inl e \<Rightarrow> (Inl e, st)
      | Inr d1 \<Rightarrow>
      (case concat_rows (d1 # summary_rows st) of
        Inl e \<Rightarrow> (Inl e, st\<lparr>data := d1\<rparr>)
      | Inr d2 \<Rightarrow>
      (let st2 = st\<lparr>data := d2,
                    table_styles := table_styles st
                      @ row_selectors rows (length (summary_rows st))
                      @ col_selectors cols ix_cols (length (summary_cols st))\<rparr> in
       case getitem_cols (colnames @ summary_colnames) d2 of
        Inl e \<Rightarrow> (Inl e, st2)
      | Inr d3 \<Rightarrow>
          (Inr (), st2\<lparr>data := (blank_shared summary_rownames summary_colnames d3)
                                 \<lparr>index_names := index_names d,
                                  columns_names := columns_names d\<rparr>\<rparr>))))))"

subsection \<open>Rendering\<close>

text \<open>
  The render tree pandas' \<^verbatim>\<open>Styler._translate\<close> returns is a dictionary; the entries
  the class reads are \<^verbatim>\<open>'head'\<close> and \<^verbatim>\<open>'body'\<close>, lists of rows of cells, each cell a
  dictionary with (among others) \<^verbatim>\<open>'class'\<close>, \<^verbatim>\<open>'value'\<close> and \<^verbatim>\<open>'display_value'\<close>. The
  entry \<^verbatim>\<open>'table_styles'\<close> is the Styler's \<^verbatim>\<open>table_styles\<close>. How pandas lays out the
  head and the body from the Styler's attributes is not the class's business and is a
  parameter here.
\<close>

record cell =
  cell_class :: string
  cell_value :: val
  display_value :: val

record tree =
  head :: "cell list list"
  body :: "cell list list"
  tree_table_styles :: "style list"

type_synonym renderer = "styler \<Rightarrow> cell list list \<times> cell list list"

definition styler_translate :: "renderer \<Rightarrow> styler \<Rightarrow> tree" where
  "styler_translate hb s =
     \<lparr>head = fst (hb s), body = snd (hb s), tree_table_styles = table_styles s\<rparr>"

text \<open>
  The loop \<^verbatim>\<open>for col in formatted_df: formatted_df.loc[formatted_df[col].isnull(), col] = v\<close>.
  With a repeated column label \<^verbatim>\<open>formatted_df[col]\<close> is a table, not a column, and
  \<^verbatim>\<open>loc\<close> raises \<^verbatim>\<open>KeyError\<close> at the first column whose label occurs again.
\<close>

fun first_repeated :: "label list \<Rightarrow> label option" where
  "first_repeated [] = None"
| "first_repeated (l # ls) = (if l \<in> set ls then Some l else first_repeated ls)"

definition replace_nulls :: "val \<Rightarrow> dataframe \<Rightarrow> error + dataframe" where
  "replace_nulls v d =
     (case first_repeated (columns d) of
        Some l \<Rightarrow> Inl (KeyError l)
      | None \<Rightarrow> Inr (d\<lparr>cells := map (map (\<lambda>x. if isnull x then v else x)) (cells d)\<rparr>))"

datatype rendered = Html tree | Frame dataframe

text \<open>
  \<^verbatim>\<open>get_formatted_df(as_html)\<close>. \<^verbatim>\<open>self.data\<close> is copied, the summaries are merged and
  the formatters applied to \<^verbatim>\<open>self.data\<close>, the superclass builds the render tree, and
  \<^verbatim>\<open>self.data = data\<close> puts the copy back. The assignment stands after the two calls and
  in no \<^verbatim>\<open>finally\<close> block: an exception raised by either call leaves the method before
  it.
\<close>

definition get_formatted_df :: "renderer \<Rightarrow> bool \<Rightarrow> pretty_pandas \<Rightarrow> (error + rendered) \<times> pretty_pandas" where
  "get_formatted_df hb as_html st =
     (let data0 = data st in
      case apply_summaries st of
        (Inl e, st1) \<Rightarrow> (Inl e, st1)
      | (Inr u1, st1) \<Rightarrow>
      (case apply_formatters st1 of
        (Inl e, st2) \<Rightarrow> (Inl e, st2)
      | (Inr u2, st2) \<Rightarrow>
      (let formatted_df = data st2;
           st3 = st2\<lparr>self_index := index (data st2), self_columns := columns (data st2)\<rparr>;
           result = styler_translate hb (styler.truncate st3);
           st4 = st3\<lparr>data := data0\<rparr>
       in if as_html then (Inr (Html result), st4)
          else
            (case replace_all_nans_with st4 of
               None \<Rightarrow> (Inr (Frame formatted_df), st4)
             | Some v \<Rightarrow>
                 (case replace_nulls v formatted_df of
                    Inl e \<Rightarrow> (Inl e, st4)
                  | Inr d \<Rightarrow> (Inr (Frame d), st4))))))"

text \<open>Python's \<^verbatim>\<open>p in s\<close> on strings: \<open>p\<close> occurs in \<open>s\<close>.\<close>

fun starts_with :: "string \<Rightarrow> string \<Rightarrow> bool" where
  "starts_with [] s = True"
| "starts_with (p # ps) [] = False"
| "starts_with (p # ps) (c # cs) = (p = c \<and> starts_with ps cs)"

fun str_contains :: "string \<Rightarrow> string \<Rightarrow> bool" where
  "str_contains p [] = (p = [])"
| "str_contains p (c # cs) = (starts_with p (c # cs) \<or> str_contains p cs)"

definition blank :: "cell \<Rightarrow> bool" where
  "blank c = str_contains ''blank'' (cell_class c)"

text \<open>
  The loop over \<^verbatim>\<open>zip(head[0], head[1])\<close>: \<open>Some merged\<close> when it runs to the end,
  \<open>None\<close> when it breaks with \<^verbatim>\<open>merge_headers = False\<close>.
\<close>

fun merge_head :: "cell list \<Rightarrow> cell list \<Rightarrow> cell list option" where
  "merge_head (col0 # r0) (col1 # r1) =
     (if \<not> blank col0 \<and> blank col1 then map_option ((#) col0) (merge_head r0 r1)
      else if blank col0 \<and> \<not> blank col1 then map_option ((#) col1) (merge_head r0 r1)
      else None)"
| "merge_head r0 r1 = Some []"

definition merge_headers :: "tree \<Rightarrow> tree" where
  "merge_headers result =
     (case head result of
        [h0, h1] \<Rightarrow>
          (case merge_head h0 h1 of
             Some merged \<Rightarrow> result\<lparr>head := [merged]\<rparr>
           | None \<Rightarrow> result)
      | _ \<Rightarrow> result)"

definition replace_nan_display :: "val \<Rightarrow> tree \<Rightarrow> tree" where
  "replace_nan_display v result =
     result\<lparr>body := map (map (\<lambda>c. if cell_value c = NaN then c\<lparr>display_value := v\<rparr> else c))
                        (body result)\<rparr>"

text \<open>
  \<^verbatim>\<open>_translate\<close>, which overrides the Styler's and is what rendering calls. It asks
  \<^verbatim>\<open>get_formatted_df\<close> for the render tree; were it handed a table, \<^verbatim>\<open>result['head']\<close>
  would raise \<^verbatim>\<open>KeyError\<close>.
\<close>

definition translate :: "renderer \<Rightarrow> pretty_pandas \<Rightarrow> (error + tree) \<times> pretty_pandas" where
  "translate hb st =
     (case get_formatted_df hb True st of
        (Inl e, st') \<Rightarrow> (Inl e, st')
      | (Inr (Frame d), st') \<Rightarrow> (Inl (KeyError ''head''), st')
      | (Inr (Html result), st') \<Rightarrow>
          (let result1 = merge_headers result in
           (Inr (case replace_all_nans_with st' of
                   None \<Rightarrow> result1
                 | Some v \<Rightarrow> replace_nan_display v result1), st')))"

subsection \<open>Sequences of calls\<close>

text \<open>
  The arguments of one call of \<^verbatim>\<open>multi_summary\<close>, and a chain of such calls
  \<^verbatim>\<open>p.multi_summary(...).multi_summary(...)\<close>, which stops at the first call that raises.
\<close>

record summary_call =
  c_funcs :: "(kwargs \<Rightarrow> val list \<Rightarrow> val) list"
  c_titles :: "label list"
  c_axis :: axis
  c_subset :: "label list option"
  c_exclude :: "label list option"
  c_kwargs :: kwargs

definition call_summary :: "summary_call \<Rightarrow> pretty_pandas \<Rightarrow> error + pretty_pandas" where
  "call_summary c st =
     multi_summary (c_funcs c) (c_titles c) (c_axis c) (c_subset c) (c_exclude c) (c_kwargs c) st"

fun add_summaries :: "summary_call list \<Rightarrow> pretty_pandas \<Rightarrow> error + pretty_pandas" where
  "add_summaries [] st = Inr st"
| "add_summaries (c # cs) st =
     (case call_summary c st of Inl e \<Rightarrow> Inl e | Inr st' \<Rightarrow> add_summaries cs st')"

text \<open>
  The titles a chain of calls adds as summary rows and as summary columns, in call order:
  a call adds one summary per pair of \<^verbatim>\<open>zip(funcs, titles)\<close>, as rows for axis 0, as columns
  for axis 1, as both for \<^verbatim>\<open>None\<close>, and nothing for any other axis.
\<close>

definition call_titles :: "summary_call \<Rightarrow> label list" where
  "call_titles c = map snd (zip (c_funcs c) (c_titles c))"

definition added_row_titles :: "summary_call list \<Rightarrow> label list" where
  "added_row_titles cs =
     concat (map (\<lambda>c. if c_axis c = AxisInt 0 \<or> c_axis c = AxisNone then call_titles c else []) cs)"

definition added_col_titles :: "summary_call list \<Rightarrow> label list" where
  "added_col_titles cs =
     concat (map (\<lambda>c. if c_axis c = AxisInt 1 \<or> c_axis c = AxisNone then call_titles c else []) cs)"

subsection \<open>The labels a formatter targets, in the specification's words\<close>

text \<open>
  The specification speaks of a formatter's resolved target label set: the subset,
  restricted to the labels the table has on the formatter's axis (all these labels when no
  subset was given), minus the excluded labels. This is that set, written from the
  specification's sentence; \<open>target_labels\<close> above is what the loop computes.
\<close>

definition resolved_labels :: "formatter \<Rightarrow> dataframe \<Rightarrow> label list" where
  "resolved_labels f d =
     (let labels = (if f_axis f = AxisStr ''columns'' then columns d else index d);
          restricted = (case f_subset f of None \<Rightarrow> labels
                        | Some s \<Rightarrow> filter (\<lambda>x. x \<in> set labels) s)
      in case f_exclude f of None \<Rightarrow> restricted
         | Some ex \<Rightarrow> filter (\<lambda>x. x \<notin> set ex) restricted)"


section \<open>Concrete inputs\<close>

text \<open>
  A small table, an aggregation function and a formatting function, used to evaluate the
  methods at concrete inputs. \<open>np_sum\<close> adds up the numbers of a row or column, as
  \<^verbatim>\<open>numpy.sum\<close> does; \<open>as_text\<close> stands for a formatting function and turns every
  value into a string.
\<close>

definition np_sum :: "kwargs \<Rightarrow> val list \<Rightarrow> val" where
  "np_sum kw vs = Num (sum_list (map (\<lambda>v. case v of Num n \<Rightarrow> n | _ \<Rightarrow> 0) vs))"

definition as_text :: "kwargs \<Rightarrow> val \<Rightarrow> val" where
  "as_text kw v = (case v of Str s \<Rightarrow> Str s | _ \<Rightarrow> Str ''#'')"

definition example_df :: dataframe where
  "example_df =
     \<lparr>index = [''x'', ''y''], columns = [''A'', ''B''],
      cells = [[Num 1, Num 2], [Num 3, Num 4]],
      index_names = [None], columns_names = [None]\<rparr>"

definition example_pp :: pretty_pandas where
  "example_pp = init example_df [] [] [] None True []"

text \<open>The table with a summary row and a summary column \<open>Total\<close>, added by one call with
  \<^verbatim>\<open>axis=None\<close>.\<close>

definition example_totals :: pretty_pandas where
  "example_totals =
     (case multi_summary [np_sum] [''Total''] AxisNone None None [] example_pp of
        Inr st \<Rightarrow> st
      | Inl e \<Rightarrow> example_pp)"

text \<open>A formatter registered with an axis that is neither \<^verbatim>\<open>'columns'\<close> nor \<^verbatim>\<open>'rows'\<close>.\<close>

definition bad_formatter :: formatter where
  "bad_formatter =
     \<lparr>f_subset = None, f_exclude = None, f_axis = AxisStr ''index'', f_function = as_text []\<rparr>"

definition example_bad_axis :: pretty_pandas where
  "example_bad_axis = format_cells as_text None None (AxisStr ''index'') [] example_pp"

text \<open>A renderer whose head has two rows, as pandas lays it out for a table with a named
  index: the column headings over a blank corner, and the index name over blanks.\<close>

definition heading :: "string \<Rightarrow> string \<Rightarrow> cell" where
  "heading cls txt = \<lparr>cell_class = cls, cell_value = Str txt, display_value = Str txt\<rparr>"

definition two_row_renderer :: renderer where
  "two_row_renderer s =
     ([[heading ''blank level0'' [], heading ''col_heading level0 col0'' ''A''],
       [heading ''index_name level0'' ''idx'', heading ''blank'' []]],
      [])"

definition example_tree :: tree where
  "example_tree =
     \<lparr>head = [[heading ''blank level0'' [], heading ''col_heading level0 col0'' ''A''],
              [heading ''index_name level0'' ''idx'', heading ''blank'' []]],
      body = [], tree_table_styles = STYLES\<rparr>"

text \<open>The calls \<^verbatim>\<open>multi_summary([np.sum], ['Total'], axis=None)\<close> and
  \<^verbatim>\<open>multi_summary([np.sum], ['Total'], axis=1)\<close>, and the object after the second call
  was made twice.\<close>

definition total_both_call :: summary_call where
  "total_both_call =
     \<lparr>c_funcs = [np_sum], c_titles = [''Total''], c_axis = AxisNone,
      c_subset = None, c_exclude = None, c_kwargs = []\<rparr>"

definition total_col_call :: summary_call where
  "total_col_call =
     \<lparr>c_funcs = [np_sum], c_titles = [''Total''], c_axis = AxisInt 1,
      c_subset = None, c_exclude = None, c_kwargs = []\<rparr>"

definition example_dup :: pretty_pandas where
  "example_dup =
     (case add_summaries [total_col_call, total_col_call] example_pp of
        Inr st \<Rightarrow> st
      | Inl e \<Rightarrow> example_pp)"

text \<open>A formatter for a column the table does not have.\<close>

definition absent_formatter :: formatter where
  "absent_formatter =
     \<lparr>f_subset = Some [''Z''], f_exclude = None, f_axis = AxisStr ''columns'', f_function = as_text []\<rparr>"

text \<open>The table with the totals and, registered after them, the formatter with the bad axis.\<close>

definition example_totals_bad_axis :: pretty_pandas where
  "example_totals_bad_axis = format_cells as_text None None (AxisStr ''index'') [] example_totals"

definition merged_totals :: dataframe where
  "merged_totals =
     \<lparr>index = [''x'', ''y'', ''Total''], columns = [''A'', ''B'', ''Total''],
      cells = [[Num 1, Num 2, Num 3], [Num 3, Num 4, Num 7], [Num 4, Num 6, Str []]],
      index_names = [None], columns_names = [None]\<rparr>"

section \<open>Adding summaries: what a call stores\<close>

lemma summary_output_error:
  "summary_output fts ax subs kw d = Inl e \<Longrightarrow> e = ValueError ''No axis named''"
  by (induction fts ax subs kw d rule: summary_output.induct)
     (auto simp: df_apply_to_frame_def split: sum.splits option.splits if_splits)

lemma summary_output_Some:
  "summary_output fts ax (Some sub) kw d =
     Inr (map (\<lambda>(f, t). summary_frame t (summary_names ax d) (summary_level_names ax d)
                          (summary_vals (f kw) sub ax d)) fts)"
  by (induction fts) auto

lemma effective_subset_Some [simp]:
  "effective_subset ax (Some sub) excl d = Some sub"
  by (simp add: effective_subset_def split: option.splits)

lemma effective_subset_exclude:
  "effective_subset ax None (Some ex) d = Some (filter (\<lambda>n. n \<notin> set ex) (summary_names ax d))"
  by (simp add: effective_subset_def)

lemma infer_column_length [simp]: "length (infer_column vals) = length vals"
  by (simp add: infer_column_def)

lemma infer_column_nth:
  "k < length vals \<Longrightarrow>
   infer_column vals ! k =
     (if vals ! k = PyNone \<and> list_ex numeric vals
          \<and> list_all (\<lambda>v. numeric v \<or> v = PyNone) vals
      then NaN else vals ! k)"
  by (simp add: infer_column_def)

lemma T_summary_frame:
  "T (summary_frame t names nm vals) =
     \<lparr>index = [t], columns = names, cells = [infer_column vals], index_names = [None],
      columns_names = nm\<rparr>"
  by (simp add: T_def summary_frame_def column_values_def comp_def)

text \<open>
  C8 (as amended). A summary added with axis 0 or axis 1 and an explicit subset spans the
  whole axis: the summary row (axis 0) has every column of the table, the summary column
  (axis 1) every row. Its values are the list holding the function's value at the labels of
  the subset and \<^verbatim>\<open>None\<close> at the others, stored as pandas stores a column: each entry
  is kept, except that a \<^verbatim>\<open>None\<close> is stored as \<^verbatim>\<open>NaN\<close> when the list holds a number
  and nothing but numbers, \<^verbatim>\<open>NaN\<close> and \<^verbatim>\<open>None\<close>; so a label outside the subset always
  holds a missing value. When only \<^verbatim>\<open>exclude\<close> is given, the call is the call with the
  subset of all labels of the axis that are not excluded.
\<close>

theorem subset_summary_spans_axis:
  "multi_summary funcs titles (AxisInt 0) (Some sub) excl kw st =
     Inr (st\<lparr>summary_rows := summary_rows st @
            map (\<lambda>(f, t).
                  \<lparr>index = [t], columns = columns (data st),
                   cells = [infer_column
                              (map (\<lambda>j. if columns (data st) ! j \<in> set sub
                                         then f kw (column_values (data st) j) else PyNone)
                                   [0..<length (columns (data st))])],
                   index_names = [None], columns_names = columns_names (data st)\<rparr>)
                (zip funcs titles)\<rparr>)
   \<and> multi_summary funcs titles (AxisInt 1) (Some sub) excl kw st =
     Inr (st\<lparr>summary_cols := summary_cols st @
            map (\<lambda>(f, t).
                  \<lparr>index = index (data st), columns = [t],
                   cells = map (\<lambda>v. [v])
                             (infer_column
                                (map (\<lambda>i. if index (data st) ! i \<in> set sub
                                           then f kw (cells (data st) ! i) else PyNone)
                                     [0..<length (index (data st))])),
                   index_names = index_names (data st), columns_names = [None]\<rparr>)
                (zip funcs titles)\<rparr>)
   \<and> multi_summary funcs titles (AxisInt 0) None (Some ex) kw st =
     multi_summary funcs titles (AxisInt 0)
       (Some (filter (\<lambda>n. n \<notin> set ex) (columns (data st)))) None kw st
   \<and> multi_summary funcs titles (AxisInt 1) None (Some ex) kw st =
     multi_summary funcs titles (AxisInt 1)
       (Some (filter (\<lambda>n. n \<notin> set ex) (index (data st)))) None kw st
   \<and> length (infer_column vals) = length vals
   \<and> (\<forall>k < length vals.
         infer_column vals ! k =
           (if vals ! k = PyNone \<and> list_ex numeric vals
                \<and> list_all (\<lambda>v. numeric v \<or> v = PyNone) vals
            then NaN else vals ! k))
   \<and> (\<forall>k < length vals. vals ! k = PyNone \<longrightarrow> isnull (infer_column vals ! k))"
proof -
  have rows: "map T (map (\<lambda>(f, t). summary_frame t (summary_names (AxisInt 0) d)
                 (summary_level_names (AxisInt 0) d) (summary_vals (f kw) sub (AxisInt 0) d)) fts)
      = map (\<lambda>(f, t).
                  \<lparr>index = [t], columns = columns d,
                   cells = [infer_column
                              (map (\<lambda>j. if columns d ! j \<in> set sub
                                         then f kw (column_values d j) else PyNone)
                                   [0..<length (columns d)])],
                   index_names = [None], columns_names = columns_names d\<rparr>) fts" for d fts
    by (auto simp: T_summary_frame summary_names_def summary_level_names_def summary_vals_def
                   iter_fn_def iteritems_def comp_def)
  have cols: "map (\<lambda>(f, t). summary_frame t (summary_names (AxisInt 1) d)
                 (summary_level_names (AxisInt 1) d) (summary_vals (f kw) sub (AxisInt 1) d)) fts
      = map (\<lambda>(f, t).
                  \<lparr>index = index d, columns = [t],
                   cells = map (\<lambda>v. [v])
                             (infer_column
                                (map (\<lambda>i. if index d ! i \<in> set sub
                                           then f kw (cells d ! i) else PyNone)
                                     [0..<length (index d)])),
                   index_names = index_names d, columns_names = [None]\<rparr>) fts" for d fts
    by (auto simp: summary_frame_def summary_names_def summary_level_names_def summary_vals_def
                   iter_fn_def iterrows_def comp_def)
  have a0: "multi_summary funcs titles (AxisInt 0) (Some sub) excl kw st =
      Inr (st\<lparr>summary_rows := summary_rows st @
         map T (map (\<lambda>(f, t). summary_frame t (summary_names (AxisInt 0) (data st))
                 (summary_level_names (AxisInt 0) (data st))
                 (summary_vals (f kw) sub (AxisInt 0) (data st))) (zip funcs titles))\<rparr>)"
    by (simp add: multi_summary_def multi_summary_axis_def summary_output_Some del: map_map)
  have a1: "multi_summary funcs titles (AxisInt 1) (Some sub) excl kw st =
      Inr (st\<lparr>summary_cols := summary_cols st @
         map (\<lambda>(f, t). summary_frame t (summary_names (AxisInt 1) (data st))
                 (summary_level_names (AxisInt 1) (data st))
                 (summary_vals (f kw) sub (AxisInt 1) (data st))) (zip funcs titles)\<rparr>)"
    by (simp add: multi_summary_def multi_summary_axis_def summary_output_Some del: map_map)
  have e0: "multi_summary funcs titles (AxisInt 0) None (Some ex) kw st =
     multi_summary funcs titles (AxisInt 0)
       (Some (filter (\<lambda>n. n \<notin> set ex) (columns (data st)))) None kw st"
    by (simp add: multi_summary_def multi_summary_axis_def effective_subset_exclude
                  summary_names_def)
  have e1: "multi_summary funcs titles (AxisInt 1) None (Some ex) kw st =
     multi_summary funcs titles (AxisInt 1)
       (Some (filter (\<lambda>n. n \<notin> set ex) (index (data st)))) None kw st"
    by (simp add: multi_summary_def multi_summary_axis_def effective_subset_exclude
                  summary_names_def)
  have n: "\<forall>k < length vals.
         infer_column vals ! k =
           (if vals ! k = PyNone \<and> list_ex numeric vals
                \<and> list_all (\<lambda>v. numeric v \<or> v = PyNone) vals
            then NaN else vals ! k)"
    by (simp add: infer_column_nth)
  then have m: "\<forall>k < length vals. vals ! k = PyNone \<longrightarrow> isnull (infer_column vals ! k)"
    by (simp add: isnull_def)
  show ?thesis
    unfolding a0 a1 rows cols using e0 e1 n m by simp
qed

lemma subset_row_example:
  "multi_summary [np_sum] [''Total''] (AxisInt 0) (Some [''A'']) None [] example_pp =
     Inr (example_pp\<lparr>summary_rows :=
            [\<lparr>index = [''Total''], columns = [''A'', ''B''], cells = [[Num 4, NaN]],
              index_names = [None], columns_names = [None]\<rparr>]\<rparr>)"
  by (simp add: multi_summary_def multi_summary_axis_def summary_output_Some T_summary_frame
                summary_vals_def iter_fn_def iteritems_def column_values_def summary_names_def
                summary_level_names_def infer_column_def numeric_def np_sum_def
                example_pp_def example_df_def init_def upt_rec)

theorem subset_summary_spans_axis_witness:
  "multi_summary [np_sum] [''Total''] (AxisInt 0) (Some [''A'']) None [] example_pp =
     Inr (example_pp\<lparr>summary_rows :=
            [\<lparr>index = [''Total''], columns = [''A'', ''B''], cells = [[Num 4, NaN]],
              index_names = [None], columns_names = [None]\<rparr>]\<rparr>)
   \<and> 1 < length [Num 4, PyNone]
   \<and> [Num 4, PyNone] ! 1 = PyNone
   \<and> infer_column [Num 4, PyNone] ! 1 = NaN
   \<and> isnull (infer_column [Num 4, PyNone] ! 1)"
proof -
  have k: "1 < length [Num 4, PyNone]" "[Num 4, PyNone] ! 1 = PyNone"
    "list_ex numeric [Num 4, PyNone]"
    "list_all (\<lambda>v. numeric v \<or> v = PyNone) [Num 4, PyNone]"
    by (simp_all add: numeric_def)
  from subset_summary_spans_axis [of "[np_sum]" "[''Total'']" "[''A'']" None "[]" example_pp
      "[]" "[Num 4, PyNone]"] k
  have "infer_column [Num 4, PyNone] ! 1 = NaN" "isnull (infer_column [Num 4, PyNone] ! 1)"
    by (simp_all add: isnull_def)
  with k subset_row_example show ?thesis by simp
qed

text \<open>
  C8 as stated fails. With \<^verbatim>\<open>subset=['A']\<close> on the table with the columns \<open>A\<close> and
  \<open>B\<close>, the summary row of axis 0 holds \<^verbatim>\<open>NaN\<close> at \<open>B\<close>, not \<^verbatim>\<open>None\<close>: the row's
  other value is a number. With \<^verbatim>\<open>axis=None\<close> the subset is not passed on, and the row
  holds the sum 6 at \<open>B\<close>.
\<close>

theorem subset_none_counterexample:
  "multi_summary [np_sum] [''Total''] (AxisInt 0) (Some [''A'']) None [] example_pp =
     Inr (example_pp\<lparr>summary_rows :=
            [\<lparr>index = [''Total''], columns = [''A'', ''B''], cells = [[Num 4, NaN]],
              index_names = [None], columns_names = [None]\<rparr>]\<rparr>)
   \<and> ''B'' \<notin> set [''A''] \<and> NaN \<noteq> PyNone
   \<and> multi_summary [np_sum] [''Total''] AxisNone (Some [''A'']) None [] example_pp
       = Inr example_totals
   \<and> map cells (summary_rows example_totals) = [[[Num 4, Num 6]]]
   \<and> Num 6 \<noteq> PyNone"
proof -
  have "multi_summary [np_sum] [''Total''] AxisNone (Some [''A'']) None [] example_pp
       = Inr example_totals"
    by (simp add: example_totals_def multi_summary_def multi_summary_axis_def
                  effective_subset_def df_apply_to_frame_def)
  moreover have "map cells (summary_rows example_totals) = [[[Num 4, Num 6]]]"
    by code_simp
  ultimately show ?thesis using subset_row_example by simp
qed

text \<open>
  C10. For an axis other than 0, 1 and \<^verbatim>\<open>None\<close> and a subset given, \<^verbatim>\<open>multi_summary\<close>
  computes one summary per pair of function and title, appends none of them to either list
  and returns the object as it was. Whatever the subset, it does not raise the
  \<^verbatim>\<open>ValueError\<close> its last branch builds.
\<close>

theorem multi_summary_other_axis:
  assumes "ax \<noteq> AxisNone" and "ax \<noteq> AxisInt 0" and "ax \<noteq> AxisInt 1"
  shows "multi_summary funcs titles ax (Some sub) excl kw st = Inr st
       \<and> (\<exists>output. summary_output (zip funcs titles) ax (Some sub) kw (data st) = Inr output
              \<and> length output = length (zip funcs titles))
       \<and> multi_summary funcs titles ax subs' excl kw st
           \<noteq> Inl (ValueError ''Invalid axis selected. Can only use 0, 1, or None.'')"
  using assms
  by (auto simp: multi_summary_def multi_summary_axis_def summary_output_Some
           split: sum.splits dest: summary_output_error)

theorem multi_summary_other_axis_witness:
  "AxisInt 2 \<noteq> AxisNone \<and> AxisInt 2 \<noteq> AxisInt 0 \<and> AxisInt 2 \<noteq> AxisInt 1
   \<and> multi_summary [np_sum] [''Total''] (AxisInt 2) (Some [''x'']) None [] example_pp
       = Inr example_pp
   \<and> (\<exists>output. summary_output (zip [np_sum] [''Total'']) (AxisInt 2) (Some [''x'']) []
                  (data example_pp) = Inr output
              \<and> length output = length (zip [np_sum] [''Total'']))
   \<and> multi_summary [np_sum] [''Total''] (AxisInt 2) None None [] example_pp
           \<noteq> Inl (ValueError ''Invalid axis selected. Can only use 0, 1, or None.'')"
  using multi_summary_other_axis [of "AxisInt 2" "[np_sum]" "[''Total'']" "[''x'']" None "[]"
      example_pp None]
  by simp

section \<open>Applying formatters\<close>

lemma target_labels_error:
  "target_labels f d = Inl e \<Longrightarrow> e = axis_error"
  by (auto simp: target_labels_def axis_labels_def Let_def split: sum.splits option.splits if_splits)

lemma target_labels_invalid:
  "f_axis f \<noteq> AxisStr ''columns'' \<Longrightarrow> f_axis f \<noteq> AxisStr ''rows'' \<Longrightarrow> target_labels f d = Inl axis_error"
  by (simp add: target_labels_def axis_labels_def)

lemma apply_formatters_loop_invalid:
  "f \<in> set fs \<Longrightarrow> f_axis f \<noteq> AxisStr ''columns'' \<Longrightarrow> f_axis f \<noteq> AxisStr ''rows'' \<Longrightarrow>
   fst (apply_formatters_loop fs d) = Inl axis_error"
proof (induction fs arbitrary: d)
  case Nil
  then show ?case by simp
next
  case (Cons g fs)
  show ?case
  proof (cases "target_labels g d")
    case (Inl e)
    then show ?thesis by (simp add: target_labels_error)
  next
    case (Inr r)
    with Cons.prems have "f \<noteq> g" by (auto simp: target_labels_invalid)
    with Cons.prems have "f \<in> set fs" by simp
    with Inr Cons show ?thesis by (cases r) auto
  qed
qed

lemma fst_apply_formatters:
  "fst (apply_formatters st) = fst (apply_formatters_loop (formatters st) (data st))"
  by (simp add: apply_formatters_def case_prod_beta)

lemma apply_summaries_formatters:
  "formatters (snd (apply_summaries st)) = formatters st"
  by (simp add: apply_summaries_def Let_def split: sum.splits)

lemmas df_ops = concat_cols_def concat_rows_def getitem_cols_def positions_of_def
  blank_shared_def loc_set_def ensure_row_def ensure_col_def set_in_row_def
  row_selectors_def col_selectors_def apply_summaries_def

lemma apply_summaries_example_pp: "apply_summaries example_pp = (Inr (), example_pp)"
  by (simp add: df_ops example_pp_def example_df_def init_def Let_def upt_rec)

lemma apply_summaries_example_bad_axis:
  "apply_summaries example_bad_axis = (Inr (), example_bad_axis)"
  by (simp add: df_ops example_bad_axis_def format_cells_def example_pp_def example_df_def
                init_def Let_def upt_rec)

text \<open>
  C5. When a registered formatter has an axis that is neither \<^verbatim>\<open>'rows'\<close> nor
  \<^verbatim>\<open>'columns'\<close>, applying the formatters raises the \<^verbatim>\<open>ValueError\<close>, and so does a
  render whose summaries merge; registering the formatter with \<^verbatim>\<open>_format_cells\<close> only
  appends it to the list of formatters.
\<close>

theorem invalid_axis_raises_when_applied:
  assumes "f \<in> set (formatters st)" and "f_axis f \<noteq> AxisStr ''columns''" and "f_axis f \<noteq> AxisStr ''rows''"
  shows "fst (apply_formatters st) = Inl axis_error
       \<and> (\<forall>st1. apply_summaries st = (Inr (), st1) \<longrightarrow>
              fst (get_formatted_df hb as_html st) = Inl axis_error)
       \<and> (\<exists>fn. format_cells func subs excl (f_axis f) kw st0 =
              st0\<lparr>formatters := formatters st0 @
                     [\<lparr>f_subset = subs, f_exclude = excl, f_axis = f_axis f, f_function = fn\<rparr>]\<rparr>)"
proof (intro conjI allI impI)
  show "fst (apply_formatters st) = Inl axis_error"
    using apply_formatters_loop_invalid [OF assms, of "data st"]
    by (simp add: fst_apply_formatters)
next
  fix st1 assume m: "apply_summaries st = (Inr (), st1)"
  then have "formatters st1 = formatters st"
    using apply_summaries_formatters [of st] by simp
  with assms have "fst (apply_formatters st1) = Inl axis_error"
    using apply_formatters_loop_invalid [of f "formatters st1" "data st1"]
    by (simp add: fst_apply_formatters)
  with m show "fst (get_formatted_df hb as_html st) = Inl axis_error"
    by (auto simp: get_formatted_df_def split: prod.splits sum.splits)
next
  show "\<exists>fn. format_cells func subs excl (f_axis f) kw st0 =
              st0\<lparr>formatters := formatters st0 @
                     [\<lparr>f_subset = subs, f_exclude = excl, f_axis = f_axis f, f_function = fn\<rparr>]\<rparr>"
    unfolding format_cells_def Let_def by blast
qed

theorem invalid_axis_raises_when_applied_witness:
  "bad_formatter \<in> set (formatters example_bad_axis)
   \<and> f_axis bad_formatter \<noteq> AxisStr ''columns'' \<and> f_axis bad_formatter \<noteq> AxisStr ''rows''
   \<and> fst (apply_formatters example_bad_axis) = Inl axis_error
   \<and> apply_summaries example_bad_axis = (Inr (), example_bad_axis)
   \<and> fst (get_formatted_df two_row_renderer False example_bad_axis) = Inl axis_error
   \<and> (\<exists>fn. format_cells as_text None None (f_axis bad_formatter) [] example_pp =
          example_pp\<lparr>formatters := formatters example_pp @
             [\<lparr>f_subset = None, f_exclude = None, f_axis = f_axis bad_formatter,
               f_function = fn\<rparr>]\<rparr>)"
proof -
  have m: "bad_formatter \<in> set (formatters example_bad_axis)"
    by (simp add: example_bad_axis_def format_cells_def bad_formatter_def example_pp_def init_def)
  have a: "f_axis bad_formatter \<noteq> AxisStr ''columns''" "f_axis bad_formatter \<noteq> AxisStr ''rows''"
    by (simp_all add: bad_formatter_def)
  show ?thesis
    using invalid_axis_raises_when_applied [OF m a, of two_row_renderer False as_text None None
        "[]" example_pp]
      m a apply_summaries_example_bad_axis
    by blast
qed

section \<open>The header rows of the render tree\<close>

lemma merge_head_char:
  "merge_head r0 r1 =
     (if \<forall>i < min (length r0) (length r1). blank (r0 ! i) \<noteq> blank (r1 ! i)
      then Some (map (\<lambda>(col0, col1). if blank col1 then col0 else col1) (zip r0 r1))
      else None)"
proof (induction r0 r1 rule: merge_head.induct)
  case (1 col0 r0 col1 r1)
  have split: "(\<forall>i < Suc n. P i) = (P 0 \<and> (\<forall>i < n. P (Suc i)))" for n and P :: "nat \<Rightarrow> bool"
    by (auto simp: less_Suc_eq_0_disj)
  show ?case using 1 by (auto simp: split)
qed simp_all

lemma head_replace_nan_display [simp]: "head (replace_nan_display v t) = head t"
  by (simp add: replace_nan_display_def)

lemma merge_headers_two:
  "head result = [h0, h1] \<Longrightarrow>
   head (merge_headers result) =
     (if \<forall>i < min (length h0) (length h1). blank (h0 ! i) \<noteq> blank (h1 ! i)
      then [map (\<lambda>(col0, col1). if blank col1 then col0 else col1) (zip h0 h1)]
      else [h0, h1])"
  by (simp add: merge_headers_def merge_head_char)

lemma get_formatted_df_example_pp:
  "get_formatted_df two_row_renderer True example_pp =
     (Inr (Html example_tree), example_pp)"
  unfolding get_formatted_df_def apply_summaries_example_pp
  by (simp add: apply_formatters_def styler_translate_def two_row_renderer_def example_tree_def
                styler.truncate_def example_pp_def init_def example_df_def)

text \<open>
  C9. When the render tree has exactly two header rows, \<^verbatim>\<open>_translate\<close> returns a tree
  (no error) whose head is one row taking, at each position the two rows share, the cell
  that is not blank, provided that at each of these positions exactly one of the two cells
  is blank; otherwise the head is the two rows as they were.
\<close>

theorem two_header_rows_merged:
  assumes "get_formatted_df hb True st = (Inr (Html result), st')"
      and "head result = [h0, h1]"
  shows "\<exists>t. translate hb st = (Inr t, st')
       \<and> head t =
           (if \<forall>i < min (length h0) (length h1). blank (h0 ! i) \<noteq> blank (h1 ! i)
            then [map (\<lambda>(col0, col1). if blank col1 then col0 else col1) (zip h0 h1)]
            else [h0, h1])"
  using assms merge_headers_two [OF assms(2)]
  by (auto simp: translate_def Let_def split: option.splits)

theorem two_header_rows_merged_witness:
  "get_formatted_df two_row_renderer True example_pp = (Inr (Html example_tree), example_pp)
   \<and> head example_tree =
        [[heading ''blank level0'' [], heading ''col_heading level0 col0'' ''A''],
         [heading ''index_name level0'' ''idx'', heading ''blank'' []]]
   \<and> (\<exists>t. translate two_row_renderer example_pp = (Inr t, example_pp)
        \<and> head t = [[heading ''index_name level0'' ''idx'',
                      heading ''col_heading level0 col0'' ''A'']])"
proof -
  have h: "head example_tree =
        [[heading ''blank level0'' [], heading ''col_heading level0 col0'' ''A''],
         [heading ''index_name level0'' ''idx'', heading ''blank'' []]]"
    by (simp add: example_tree_def)
  have b: "(\<forall>i < min (length [heading ''blank level0'' [], heading ''col_heading level0 col0'' ''A''])
                     (length [heading ''index_name level0'' ''idx'', heading ''blank'' []]).
              blank ([heading ''blank level0'' [], heading ''col_heading level0 col0'' ''A''] ! i)
              \<noteq> blank ([heading ''index_name level0'' ''idx'', heading ''blank'' []] ! i))"
    by (simp add: less_Suc_eq blank_def heading_def numeral_2_eq_2)
  show ?thesis
    using two_header_rows_merged [OF get_formatted_df_example_pp h] b
      get_formatted_df_example_pp h
    by (simp add: blank_def heading_def)
qed

section \<open>Merging the summaries: labels and shared cells\<close>

lemma first_labels_hd:
  "first_labels lss = Inr r \<Longrightarrow> r = map hd lss \<and> [] \<notin> set lss"
  by (induction lss arbitrary: r rule: first_labels.induct) (auto split: sum.splits)

lemma loc_set_present:
  assumes "r \<in> set (index d)" and "c \<in> set (columns d)"
  shows "index (loc_set r c v d) = index d"
    and "columns (loc_set r c v d) = columns d"
    and "length (cells (loc_set r c v d)) = length (cells d)"
    and "i < length (cells d) \<Longrightarrow>
           length (cells (loc_set r c v d) ! i) = length (cells d ! i)"
    and "i < length (cells d) \<Longrightarrow> j < length (cells d ! i) \<Longrightarrow>
           cells (loc_set r c v d) ! i ! j =
             (if index d ! i = r \<and> columns d ! j = c then v else cells d ! i ! j)"
  using assms
  by (simp_all add: loc_set_def ensure_row_def ensure_col_def set_in_row_def Let_def)

lemma blank_pairs:
  assumes "\<forall>p \<in> set ps. fst p \<in> set (index d) \<and> snd p \<in> set (columns d)"
  shows "index (foldl (\<lambda>d' (r, c). loc_set r c v d') d ps) = index d
       \<and> columns (foldl (\<lambda>d' (r, c). loc_set r c v d') d ps) = columns d
       \<and> length (cells (foldl (\<lambda>d' (r, c). loc_set r c v d') d ps)) = length (cells d)
       \<and> (\<forall>i < length (cells d).
            length (cells (foldl (\<lambda>d' (r, c). loc_set r c v d') d ps) ! i) = length (cells d ! i)
            \<and> (\<forall>j < length (cells d ! i).
                 cells (foldl (\<lambda>d' (r, c). loc_set r c v d') d ps) ! i ! j =
                   (if (index d ! i, columns d ! j) \<in> set ps then v else cells d ! i ! j)))"
  using assms
proof (induction ps arbitrary: d)
  case Nil
  then show ?case by simp
next
  case (Cons p ps)
  obtain r c where p: "p = (r, c)" by (cases p)
  let ?d1 = "loc_set r c v d"
  from Cons.prems p have rc: "r \<in> set (index d)" "c \<in> set (columns d)" by auto
  note L = loc_set_present [OF rc, where v = v]
  have "\<forall>q \<in> set ps. fst q \<in> set (index ?d1) \<and> snd q \<in> set (columns ?d1)"
    using Cons.prems by (simp add: L)
  from Cons.IH [OF this] show ?case
    by (auto simp: p L)
qed

lemma blank_shared_cells:
  assumes "set rn \<subseteq> set (index d)" and "set cn \<subseteq> set (columns d)"
  shows "index (blank_shared rn cn d) = index d"
    and "columns (blank_shared rn cn d) = columns d"
    and "length (cells (blank_shared rn cn d)) = length (cells d)"
    and "i < length (cells d) \<Longrightarrow> length (cells (blank_shared rn cn d) ! i) = length (cells d ! i)"
    and "i < length (cells d) \<Longrightarrow> j < length (cells d ! i) \<Longrightarrow>
           cells (blank_shared rn cn d) ! i ! j =
             (if index d ! i \<in> set rn \<and> columns d ! j \<in> set cn then Str [] else cells d ! i ! j)"
proof -
  have "\<forall>p \<in> set (List.product rn cn). fst p \<in> set (index d) \<and> snd p \<in> set (columns d)"
    using assms by auto
  from blank_pairs [OF this, of "Str []"]
  show "index (blank_shared rn cn d) = index d"
    and "columns (blank_shared rn cn d) = columns d"
    and "length (cells (blank_shared rn cn d)) = length (cells d)"
    and "i < length (cells d) \<Longrightarrow> length (cells (blank_shared rn cn d) ! i) = length (cells d ! i)"
    and "i < length (cells d) \<Longrightarrow> j < length (cells d ! i) \<Longrightarrow>
           cells (blank_shared rn cn d) ! i ! j =
             (if index d ! i \<in> set rn \<and> columns d ! j \<in> set cn then Str [] else cells d ! i ! j)"
    by (auto simp: blank_shared_def)
qed


lemma apply_summaries_Inr:
  assumes "apply_summaries st = (Inr (), st')"
  obtains cn rn d1 d2 d3 where
    "first_labels (map columns (summary_cols st)) = Inr cn"
    "first_labels (map index (summary_rows st)) = Inr rn"
    "concat_cols (data st # summary_cols st) = Inr d1"
    "concat_rows (d1 # summary_rows st) = Inr d2"
    "getitem_cols (columns (data st) @ cn) d2 = Inr d3"
    "st' = st\<lparr>data := (blank_shared rn cn d3)
                         \<lparr>index_names := index_names (data st),
                          columns_names := columns_names (data st)\<rparr>,
                table_styles := table_styles st
                  @ row_selectors (length (index (data st))) (length (summary_rows st))
                  @ col_selectors (length (columns (data st))) (length (index_names (data st)))
                      (length (summary_cols st))\<rparr>"
  using assms
  by (auto simp: apply_summaries_def Let_def split: sum.splits)

lemma concat_rows_index:
  "concat_rows ds = Inr d \<Longrightarrow> index d = concat (map index ds)"
  by (auto simp: concat_rows_def Let_def split: list.splits if_splits)

lemma find_None_all: "find P xs = None \<Longrightarrow> x \<in> set xs \<Longrightarrow> \<not> P x"
  by (simp add: find_None_iff)

lemma getitem_cols_Inr:
  assumes "getitem_cols ls d = Inr d'"
  shows "set ls \<subseteq> set (columns d)"
    and "index d' = index d"
    and "columns d' = map (\<lambda>j. columns d ! j) (concat (map (positions_of (columns d)) ls))"
    and "cells d' = map (\<lambda>r. map (\<lambda>j. r ! j) (concat (map (positions_of (columns d)) ls))) (cells d)"
proof -
  from assms have n: "find (\<lambda>l. l \<notin> set (columns d)) ls = None"
    by (auto simp: getitem_cols_def split: option.splits)
  then show "set ls \<subseteq> set (columns d)"
    by (auto dest: find_None_all)
  from assms n show "index d' = index d"
    and "columns d' = map (\<lambda>j. columns d ! j) (concat (map (positions_of (columns d)) ls))"
    and "cells d' = map (\<lambda>r. map (\<lambda>j. r ! j) (concat (map (positions_of (columns d)) ls))) (cells d)"
    by (auto simp: getitem_cols_def Let_def)
qed

lemma getitem_cols_keeps_requested:
  assumes "getitem_cols ls d = Inr d'"
  shows "set (columns d') = set ls"
proof
  show "set (columns d') \<subseteq> set ls"
    by (auto simp: getitem_cols_Inr(3) [OF assms] positions_of_def)
next
  show "set ls \<subseteq> set (columns d')"
  proof
    fix l assume l: "l \<in> set ls"
    with getitem_cols_Inr(1) [OF assms] have "l \<in> set (columns d)" by auto
    then obtain j where j: "j < length (columns d)" "columns d ! j = l"
      by (auto simp: in_set_conv_nth)
    then have "j \<in> set (positions_of (columns d) l)"
      by (simp add: positions_of_def)
    with l j show "l \<in> set (columns d')"
      by (force simp: getitem_cols_Inr(3) [OF assms])
  qed
qed

section \<open>Well-formed tables stay well-formed\<close>

lemma wf_df_row: "wf_df d \<Longrightarrow> i < length (index d) \<Longrightarrow> length (cells d ! i) = length (columns d)"
  by (simp add: wf_df_def list_all_length)

lemma wf_summary_frame:
  "length vals = length names \<Longrightarrow> wf_df (summary_frame t names nm vals)"
  by (simp add: wf_df_def summary_frame_def list_all_iff)

lemma wf_T_summary_frame:
  "length vals = length names \<Longrightarrow> wf_df (T (summary_frame t names nm vals))"
  by (simp add: wf_df_def T_summary_frame)

lemma summary_output_wf:
  assumes "summary_output fts ax subs kw d = Inr out" and "ax = AxisInt 0 \<or> ax = AxisInt 1"
  shows "list_all wf_df out \<and> list_all (\<lambda>s. wf_df (T s)) out"
  using assms
proof (induction fts arbitrary: out)
  case Nil
  then show ?case by simp
next
  case (Cons ft fts)
  obtain f t where ft: "ft = (f, t)" by (cases ft)
  from Cons.prems ft obtain vals nm rest where
    o: "out = summary_frame t (summary_names ax d) nm vals # rest"
       "summary_output fts ax subs kw d = Inr rest"
       "length vals = length (summary_names ax d)"
    by (auto simp: df_apply_to_frame_def summary_names_def summary_vals_def iter_fn_def
                   iteritems_def iterrows_def
             split: sum.splits option.splits if_splits)
  from Cons.IH [OF o(2) Cons.prems(2)] o show ?case
    by (simp add: wf_summary_frame wf_T_summary_frame)
qed

lemma multi_summary_axis_wf:
  assumes "multi_summary_axis funcs titles ax subs excl kw st = Inr st'"
      and "list_all wf_df (summary_rows st)" and "list_all wf_df (summary_cols st)"
  shows "list_all wf_df (summary_rows st') \<and> list_all wf_df (summary_cols st')"
proof -
  from assms(1) obtain out where
    out: "summary_output (zip funcs titles) ax (effective_subset ax subs excl (data st)) kw (data st)
            = Inr out"
    by (auto simp: multi_summary_axis_def split: sum.splits)
  show ?thesis
    using assms out summary_output_wf [OF out]
    by (auto simp: multi_summary_axis_def list_all_iff split: if_splits)
qed

lemma call_summary_wf:
  assumes "call_summary c st = Inr st'"
      and "list_all wf_df (summary_rows st)" and "list_all wf_df (summary_cols st)"
  shows "list_all wf_df (summary_rows st') \<and> list_all wf_df (summary_cols st')"
  using assms
  by (auto simp: call_summary_def multi_summary_def split: if_splits sum.splits
           dest!: multi_summary_axis_wf)

lemma add_summaries_wf:
  assumes "add_summaries cs st = Inr st'"
      and "list_all wf_df (summary_rows st)" and "list_all wf_df (summary_cols st)"
  shows "list_all wf_df (summary_rows st') \<and> list_all wf_df (summary_cols st')"
  using assms
proof (induction cs arbitrary: st)
  case Nil
  then show ?case by simp
next
  case (Cons c cs)
  from Cons.prems obtain st1 where
    c: "call_summary c st = Inr st1" and r: "add_summaries cs st1 = Inr st'"
    by (auto split: sum.splits)
  from call_summary_wf [OF c Cons.prems(2,3)] Cons.IH [OF r] show ?case by simp
qed


lemma length_concat_pieces:
  "(\<And>x. x \<in> set ds \<Longrightarrow> length (g x) = length (h x)) \<Longrightarrow>
   length (concat (map g ds)) = length (concat (map h ds))"
  by (induction ds) auto

lemma wf_df_cells: "wf_df d \<Longrightarrow> r \<in> set (cells d) \<Longrightarrow> length r = length (columns d)"
  by (simp add: wf_df_def list_all_iff)

lemma concat_cols_wf:
  assumes "concat_cols ds = Inr d" and "list_all wf_df ds"
  shows "wf_df d"
proof -
  from assms(1) obtain d0 rest where ds: "ds = d0 # rest"
    by (cases ds) (auto simp: concat_cols_def)
  from assms(2) have wf: "\<And>x. x \<in> set ds \<Longrightarrow> wf_df x" by (simp add: list_all_iff)
  show ?thesis
  proof (cases "list_all (\<lambda>x. index x = index d0) rest")
    case True
    then have idx: "\<And>x. x \<in> set ds \<Longrightarrow> index x = index d0"
      by (auto simp: ds list_all_iff)
    from assms(1) True have d: "index d = index d0" "columns d = concat (map columns ds)"
      "cells d = map (\<lambda>i. concat (map (\<lambda>x. cells x ! i) ds)) [0..<length (index d0)]"
      by (auto simp: concat_cols_def ds)
    have "length (concat (map (\<lambda>x. cells x ! i) ds)) = length (concat (map columns ds))"
      if "i < length (index d0)" for i
      using that by (intro length_concat_pieces) (simp add: wf_df_row wf idx)
    then show ?thesis by (simp add: wf_df_def d list_all_iff)
  next
    case False
    with assms(1) have d:
      "columns d = concat (map columns ds)"
      "index d = union_labels [] (concat (map index ds))"
      "cells d = map (\<lambda>l. concat (map (\<lambda>x.
                            case map_of (zip (index x) (cells x)) l of
                              None \<Rightarrow> replicate (length (columns x)) NaN
                            | Some r \<Rightarrow> r) ds)) (union_labels [] (concat (map index ds)))"
      by (auto simp: concat_cols_def ds Let_def split: if_splits)
    have piece: "length (case map_of (zip (index x) (cells x)) l of
                              None \<Rightarrow> replicate (length (columns x)) NaN
                            | Some r \<Rightarrow> r) = length (columns x)"
      if "x \<in> set ds" for x l
    proof (cases "map_of (zip (index x) (cells x)) l")
      case None
      then show ?thesis by simp
    next
      case (Some r)
      then have "r \<in> set (cells x)" by (auto dest!: map_of_SomeD set_zip_rightD)
      with wf [OF that] Some show ?thesis by (simp add: wf_df_cells)
    qed
    have "length (concat (map (\<lambda>x.
                            case map_of (zip (index x) (cells x)) l of
                              None \<Rightarrow> replicate (length (columns x)) NaN
                            | Some r \<Rightarrow> r) ds)) = length (concat (map columns ds))" for l
      by (intro length_concat_pieces) (rule piece)
    then show ?thesis by (simp add: wf_df_def d list_all_iff)
  qed
qed

lemma reindex_row_length [simp]: "length (reindex_row old new r) = length new"
  by (simp add: reindex_row_def)

lemma concat_rows_wf:
  assumes "concat_rows ds = Inr d" and "list_all wf_df ds"
  shows "wf_df d"
proof -
  from assms(1) obtain d0 rest where ds: "ds = d0 # rest"
    by (cases ds) (auto simp: concat_rows_def)
  from assms(2) have wf: "\<And>x. x \<in> set ds \<Longrightarrow> wf_df x" by (simp add: list_all_iff)
  have n: "length (concat (map cells ds)) = length (concat (map index ds))"
    by (intro length_concat_pieces) (simp add: wf wf_df_def [THEN iffD1])
  show ?thesis
  proof (cases "list_all (\<lambda>x. columns x = columns d0) rest")
    case True
    then have col: "\<And>x. x \<in> set ds \<Longrightarrow> columns x = columns d0"
      by (auto simp: ds list_all_iff)
    from assms(1) True have d: "index d = concat (map index ds)" "columns d = columns d0"
      "cells d = concat (map cells ds)"
      by (auto simp: concat_rows_def ds)
    have "length r = length (columns d0)" if "r \<in> set (concat (map cells ds))" for r
    proof -
      from that obtain x where x: "x \<in> set ds" "r \<in> set (cells x)" by auto
      from wf_df_cells [OF wf [OF x(1)] x(2)] col [OF x(1)] show ?thesis by simp
    qed
    with n show ?thesis by (simp add: wf_df_def d list_all_iff)
  next
    case False
    with assms(1) have d:
      "index d = concat (map index ds)"
      "columns d = union_labels [] (concat (map columns ds))"
      "cells d = concat (map (\<lambda>x. map (reindex_row (columns x)
                    (union_labels [] (concat (map columns ds)))) (cells x)) ds)"
      by (auto simp: concat_rows_def ds Let_def split: if_splits)
    have "length (concat (map (\<lambda>x. map (reindex_row (columns x)
                    (union_labels [] (concat (map columns ds)))) (cells x)) ds))
          = length (concat (map cells ds))"
      by (intro length_concat_pieces) simp
    with n show ?thesis by (auto simp: wf_df_def d list_all_iff)
  qed
qed

lemma getitem_cols_wf:
  assumes "getitem_cols ls d = Inr d'" and "wf_df d"
  shows "wf_df d'"
  using assms(2)
  by (simp add: wf_df_def getitem_cols_Inr [OF assms(1)] list_all_iff)

lemma loc_set_wf: "wf_df d \<Longrightarrow> wf_df (loc_set r c v d)"
  by (auto simp: wf_df_def loc_set_def ensure_row_def ensure_col_def set_in_row_def Let_def
                 list_all_iff nth_append)

lemma blank_shared_wf: "wf_df d \<Longrightarrow> wf_df (blank_shared rn cn d)"
proof -
  have "wf_df d \<Longrightarrow> wf_df (foldl (\<lambda>d' (r, c). loc_set r c v d') d ps)" for ps v
    by (induction ps arbitrary: d) (auto simp: loc_set_wf)
  then show "wf_df d \<Longrightarrow> wf_df (blank_shared rn cn d)"
    by (simp add: blank_shared_def)
qed

lemma apply_summaries_wf:
  assumes "apply_summaries st = (Inr (), st')"
      and "wf_df (data st)" and "list_all wf_df (summary_rows st)"
      and "list_all wf_df (summary_cols st)"
  shows "wf_df (data st')"
proof -
  from assms(1) obtain cn rn d1 d2 d3 where
    d1: "concat_cols (data st # summary_cols st) = Inr d1" and
    d2: "concat_rows (d1 # summary_rows st) = Inr d2" and
    d3: "getitem_cols (columns (data st) @ cn) d2 = Inr d3" and
    st': "st' = st\<lparr>data := (blank_shared rn cn d3)
                         \<lparr>index_names := index_names (data st),
                          columns_names := columns_names (data st)\<rparr>,
                table_styles := table_styles st
                  @ row_selectors (length (index (data st))) (length (summary_rows st))
                  @ col_selectors (length (columns (data st))) (length (index_names (data st)))
                      (length (summary_cols st))\<rparr>"
    by (rule apply_summaries_Inr)
  from concat_cols_wf [OF d1] assms(2,4) have "wf_df d1" by simp
  with concat_rows_wf [OF d2] assms(3) have "wf_df d2" by simp
  with getitem_cols_wf [OF d3] have "wf_df d3" .
  then have "wf_df (blank_shared rn cn d3)" by (rule blank_shared_wf)
  then show ?thesis by (simp add: st' wf_df_def)
qed

lemma applymap_wf: "wf_df d \<Longrightarrow> wf_df (applymap_cols g ls d) \<and> wf_df (applymap_rows g ls d)"
  by (auto simp: wf_df_def applymap_cols_def applymap_rows_def list_all_iff)

lemma apply_formatters_loop_wf:
  "wf_df d \<Longrightarrow> wf_df (snd (apply_formatters_loop fs d))"
  by (induction fs d rule: apply_formatters_loop.induct)
     (auto simp: applymap_wf split: sum.splits option.splits)

lemma replace_nulls_wf: "replace_nulls v d = Inr d' \<Longrightarrow> wf_df d \<Longrightarrow> wf_df d'"
  by (auto simp: replace_nulls_def wf_df_def list_all_iff split: option.splits)

lemma rendered_table_wf:
  assumes "fst (get_formatted_df hb False st) = Inr (Frame d')"
      and "wf_df (data st)" and "list_all wf_df (summary_rows st)"
      and "list_all wf_df (summary_cols st)"
  shows "wf_df d'"
proof -
  from assms(1) obtain st1 where m: "apply_summaries st = (Inr (), st1)"
    by (auto simp: get_formatted_df_def Let_def split: prod.splits sum.splits)
  from apply_summaries_wf [OF m assms(2,3,4)] have w1: "wf_df (data st1)" .
  obtain r d2 where l: "apply_formatters_loop (formatters st1) (data st1) = (r, d2)"
    by (cases "apply_formatters_loop (formatters st1) (data st1)")
  with apply_formatters_loop_wf [OF w1, of "formatters st1"] have w2: "wf_df d2" by simp
  from assms(1) m l w2 show ?thesis
    by (auto simp: get_formatted_df_def apply_formatters_def Let_def
             split: sum.splits option.splits dest: replace_nulls_wf)
qed

section \<open>The cells shared by a summary row and a summary column\<close>

text \<open>
  C2. When the summaries have been merged, every summary-row title is a row label and
  every summary-column title a column label of the merged table, and every cell in a row
  labelled by a summary-row title and a column labelled by a summary-column title holds the
  empty string, whatever the aggregation functions put into the summaries. The merged table
  is well-formed when the table and the summaries are, so there is such a cell for every
  pair of titles.
\<close>

theorem corner_cells_empty:
  assumes "apply_summaries st = (Inr (), st')"
  shows "set (map (\<lambda>s. hd (index s)) (summary_rows st)) \<subseteq> set (index (data st'))
       \<and> set (map (\<lambda>s. hd (columns s)) (summary_cols st)) \<subseteq> set (columns (data st'))
       \<and> (\<forall>i j. i < length (cells (data st')) \<and> j < length (cells (data st') ! i)
              \<and> index (data st') ! i \<in> set (map (\<lambda>s. hd (index s)) (summary_rows st))
              \<and> columns (data st') ! j \<in> set (map (\<lambda>s. hd (columns s)) (summary_cols st))
            \<longrightarrow> cells (data st') ! i ! j = Str [])
       \<and> (wf_df (data st) \<and> list_all wf_df (summary_rows st) \<and> list_all wf_df (summary_cols st)
            \<longrightarrow> wf_df (data st'))"
proof -
  from assms obtain cn rn d1 d2 d3 where
    cn: "first_labels (map columns (summary_cols st)) = Inr cn" and
    rn: "first_labels (map index (summary_rows st)) = Inr rn" and
    d2: "concat_rows (d1 # summary_rows st) = Inr d2" and
    d3: "getitem_cols (columns (data st) @ cn) d2 = Inr d3" and
    st': "st' = st\<lparr>data := (blank_shared rn cn d3)
                         \<lparr>index_names := index_names (data st),
                          columns_names := columns_names (data st)\<rparr>,
                table_styles := table_styles st
                  @ row_selectors (length (index (data st))) (length (summary_rows st))
                  @ col_selectors (length (columns (data st))) (length (index_names (data st)))
                      (length (summary_cols st))\<rparr>"
    by (rule apply_summaries_Inr)
  from first_labels_hd [OF cn] have cn_eq: "cn = map (\<lambda>s. hd (columns s)) (summary_cols st)"
    by (simp add: comp_def)
  from first_labels_hd [OF rn] have rn_eq: "rn = map (\<lambda>s. hd (index s)) (summary_rows st)"
    and ne: "\<forall>s \<in> set (summary_rows st). index s \<noteq> []"
    by (force simp: comp_def)+
  have cols: "set cn \<subseteq> set (columns d3)"
    using getitem_cols_keeps_requested [OF d3] by auto
  have "index d3 = concat (map index (d1 # summary_rows st))"
    using getitem_cols_Inr(2) [OF d3] concat_rows_index [OF d2] by simp
  with ne have rows: "set rn \<subseteq> set (index d3)"
    by (auto simp: rn_eq)
  note B = blank_shared_cells [OF rows cols]
  have data: "index (data st') = index d3" "columns (data st') = columns d3"
    "cells (data st') = cells (blank_shared rn cn d3)"
    by (simp_all add: st' B)
  have "set rn \<subseteq> set (index d3) \<and> set cn \<subseteq> set (columns d3)
       \<and> (\<forall>i j. i < length (cells (blank_shared rn cn d3))
              \<and> j < length (cells (blank_shared rn cn d3) ! i)
              \<and> index d3 ! i \<in> set rn \<and> columns d3 ! j \<in> set cn
            \<longrightarrow> cells (blank_shared rn cn d3) ! i ! j = Str [])"
    using rows cols B(3,4,5) by (auto simp: B(1,2))
  then show ?thesis
    unfolding data cn_eq [symmetric] rn_eq [symmetric]
    using apply_summaries_wf [OF assms] by blast
qed

lemma apply_summaries_example_totals:
  "fst (apply_summaries example_totals) = Inr ()"
  "data (snd (apply_summaries example_totals)) = merged_totals"
  by code_simp+

theorem corner_cells_empty_witness:
  "apply_summaries example_totals = (Inr (), snd (apply_summaries example_totals))
   \<and> set (map (\<lambda>s. hd (index s)) (summary_rows example_totals))
        \<subseteq> set (index (data (snd (apply_summaries example_totals))))
   \<and> set (map (\<lambda>s. hd (columns s)) (summary_cols example_totals))
        \<subseteq> set (columns (data (snd (apply_summaries example_totals))))
   \<and> 2 < length (cells (data (snd (apply_summaries example_totals))))
   \<and> 2 < length (cells (data (snd (apply_summaries example_totals))) ! 2)
   \<and> index (data (snd (apply_summaries example_totals))) ! 2
        \<in> set (map (\<lambda>s. hd (index s)) (summary_rows example_totals))
   \<and> columns (data (snd (apply_summaries example_totals))) ! 2
        \<in> set (map (\<lambda>s. hd (columns s)) (summary_cols example_totals))
   \<and> cells (data (snd (apply_summaries example_totals))) ! 2 ! 2 = Str []
   \<and> wf_df (data example_totals) \<and> list_all wf_df (summary_rows example_totals)
   \<and> list_all wf_df (summary_cols example_totals)
   \<and> wf_df (data (snd (apply_summaries example_totals)))"
proof -
  have s: "apply_summaries example_totals = (Inr (), snd (apply_summaries example_totals))"
    using apply_summaries_example_totals(1) by (metis prod.collapse)
  have r: "map (\<lambda>s. hd (index s)) (summary_rows example_totals) = [''Total'']"
    and c: "map (\<lambda>s. hd (columns s)) (summary_cols example_totals) = [''Total'']"
    by code_simp+
  have p: "2 < length (cells (data (snd (apply_summaries example_totals))))"
    "2 < length (cells (data (snd (apply_summaries example_totals))) ! 2)"
    "index (data (snd (apply_summaries example_totals))) ! 2
        \<in> set (map (\<lambda>s. hd (index s)) (summary_rows example_totals))"
    "columns (data (snd (apply_summaries example_totals))) ! 2
        \<in> set (map (\<lambda>s. hd (columns s)) (summary_cols example_totals))"
    unfolding r c apply_summaries_example_totals(2) by (simp_all add: merged_totals_def)
  have w: "wf_df (data example_totals)" "list_all wf_df (summary_rows example_totals)"
    "list_all wf_df (summary_cols example_totals)"
    by code_simp+
  from corner_cells_empty [OF s] p s w show ?thesis by blast
qed

section \<open>Formatters without target labels\<close>

lemma applymap_cols_labels [simp]:
  "index (applymap_cols g ls d) = index d" "columns (applymap_cols g ls d) = columns d"
  by (simp_all add: applymap_cols_def)

lemma applymap_rows_labels [simp]:
  "index (applymap_rows g ls d) = index d" "columns (applymap_rows g ls d) = columns d"
  by (simp_all add: applymap_rows_def)

lemma applymap_cols_Nil [simp]: "applymap_cols g [] d = d"
  by (simp add: applymap_cols_def map_nth)

lemma applymap_rows_Nil [simp]: "applymap_rows g [] d = d"
  by (simp add: applymap_rows_def map_nth)

lemma target_labels_cong:
  "index d' = index d \<Longrightarrow> columns d' = columns d \<Longrightarrow> target_labels f d' = target_labels f d"
  by (simp add: target_labels_def axis_labels_def)

lemma apply_formatters_loop_labels:
  "index (snd (apply_formatters_loop fs d)) = index d
   \<and> columns (snd (apply_formatters_loop fs d)) = columns d"
  by (induction fs d rule: apply_formatters_loop.induct)
     (auto split: sum.splits option.splits)

lemma apply_formatters_loop_append:
  "apply_formatters_loop (fs1 @ fs2) d =
     (case apply_formatters_loop fs1 d of
        (Inl e, d') \<Rightarrow> (Inl e, d')
      | (Inr u, d') \<Rightarrow> apply_formatters_loop fs2 d')"
  by (induction fs1 d rule: apply_formatters_loop.induct)
     (auto split: sum.splits option.splits)

lemma target_labels_resolved:
  assumes "f_axis f = AxisStr ''columns'' \<or> f_axis f = AxisStr ''rows''" and "resolved_labels f d = []"
  shows "target_labels f d = Inr None \<or> target_labels f d = Inr (Some [])"
  using assms
  by (auto simp: target_labels_def axis_labels_def resolved_labels_def Let_def
           split: option.splits)

lemma apply_formatters_loop_skip:
  assumes "target_labels f d = Inr None \<or> target_labels f d = Inr (Some [])"
  shows "apply_formatters_loop (f # fs) d = apply_formatters_loop fs d"
  using assms by auto

lemma apply_formatters_loop_drop:
  assumes "target_labels f d = Inr None \<or> target_labels f d = Inr (Some [])"
  shows "apply_formatters_loop (fs1 @ f # fs2) d = apply_formatters_loop (fs1 @ fs2) d"
proof -
  obtain r d' where l: "apply_formatters_loop fs1 d = (r, d')"
    by (cases "apply_formatters_loop fs1 d")
  with apply_formatters_loop_labels [of fs1 d]
  have "index d' = index d" "columns d' = columns d" by simp_all
  then have "target_labels f d' = target_labels f d" by (rule target_labels_cong)
  with assms have "apply_formatters_loop (f # fs2) d' = apply_formatters_loop fs2 d'"
    by (intro apply_formatters_loop_skip) simp
  with l show ?thesis
    by (simp add: apply_formatters_loop_append split: sum.splits)
qed

lemma apply_summaries_formatters_indep:
  "apply_summaries (st\<lparr>formatters := fs\<rparr>) =
     (fst (apply_summaries st), (snd (apply_summaries st))\<lparr>formatters := fs\<rparr>)"
  by (simp add: apply_summaries_def Let_def split: sum.splits)

lemma truncate_formatters [simp]:
  "styler.truncate (st\<lparr>formatters := fs\<rparr>) = styler.truncate st"
  by (simp add: styler.truncate_def)

lemma get_formatted_df_formatters:
  assumes "apply_formatters_loop fs (data (snd (apply_summaries st)))
         = apply_formatters_loop fs' (data (snd (apply_summaries st)))"
  shows "fst (get_formatted_df hb h (st\<lparr>formatters := fs\<rparr>))
       = fst (get_formatted_df hb h (st\<lparr>formatters := fs'\<rparr>))"
  using assms
  by (auto simp: get_formatted_df_def apply_summaries_formatters_indep apply_formatters_def
                 Let_def styler.truncate_def
           split: sum.splits prod.splits option.splits)

text \<open>
  C6. A formatter with a valid axis whose resolved target label set on the merged table is
  empty raises nothing and changes nothing when applied, and a render with the formatter
  registered (anywhere among the formatters) returns what the render without it returns.
\<close>

theorem empty_target_is_skipped:
  assumes "f_axis f = AxisStr ''columns'' \<or> f_axis f = AxisStr ''rows''"
      and "resolved_labels f (data (snd (apply_summaries st))) = []"
  shows "apply_formatters_loop [f] (data (snd (apply_summaries st)))
           = (Inr (), data (snd (apply_summaries st)))
       \<and> fst (get_formatted_df hb as_html (st\<lparr>formatters := fs1 @ f # fs2\<rparr>))
           = fst (get_formatted_df hb as_html (st\<lparr>formatters := fs1 @ fs2\<rparr>))"
proof -
  let ?d = "data (snd (apply_summaries st))"
  from target_labels_resolved [OF assms]
  have t: "target_labels f ?d = Inr None \<or> target_labels f ?d = Inr (Some [])" .
  from apply_formatters_loop_skip [OF t, of "[]"]
  have "apply_formatters_loop [f] ?d = (Inr (), ?d)" by simp
  moreover from apply_formatters_loop_drop [OF t]
  have "fst (get_formatted_df hb as_html (st\<lparr>formatters := fs1 @ f # fs2\<rparr>))
           = fst (get_formatted_df hb as_html (st\<lparr>formatters := fs1 @ fs2\<rparr>))"
    by (rule get_formatted_df_formatters)
  ultimately show ?thesis by simp
qed

theorem empty_target_is_skipped_witness:
  "(f_axis absent_formatter = AxisStr ''columns'' \<or> f_axis absent_formatter = AxisStr ''rows'')
   \<and> resolved_labels absent_formatter (data (snd (apply_summaries example_totals))) = []
   \<and> apply_formatters_loop [absent_formatter] (data (snd (apply_summaries example_totals)))
        = (Inr (), data (snd (apply_summaries example_totals)))
   \<and> fst (get_formatted_df two_row_renderer False
             (example_totals\<lparr>formatters := [] @ absent_formatter # []\<rparr>))
        = fst (get_formatted_df two_row_renderer False (example_totals\<lparr>formatters := [] @ []\<rparr>))"
proof -
  have a: "f_axis absent_formatter = AxisStr ''columns'' \<or> f_axis absent_formatter = AxisStr ''rows''"
    by (simp add: absent_formatter_def)
  have r: "resolved_labels absent_formatter (data (snd (apply_summaries example_totals))) = []"
    unfolding apply_summaries_example_totals(2)
    by (simp add: resolved_labels_def absent_formatter_def merged_totals_def)
  from empty_target_is_skipped [OF a r, of two_row_renderer False "[]" "[]"] a r
  show ?thesis by blast
qed

section \<open>The shape of the merged table\<close>

lemma union_labels_subset:
  "set xs \<subseteq> set acc \<Longrightarrow> union_labels acc xs = acc"
  by (induction xs arbitrary: acc) auto

lemma union_labels_fresh:
  "distinct xs \<Longrightarrow> set xs \<inter> set acc = {} \<Longrightarrow> union_labels acc xs = acc @ xs"
  by (induction xs arbitrary: acc) auto

lemma union_labels_append:
  "union_labels acc (xs @ ys) = union_labels (union_labels acc xs) ys"
  by (induction xs arbitrary: acc) auto

lemma filter_eq_upt: "i < n \<Longrightarrow> filter (\<lambda>j. j = i) [0..<n] = [i]"
  by (induction n) (auto simp: less_Suc_eq)

lemma positions_of_distinct:
  assumes "distinct ls" and "i < length ls"
  shows "positions_of ls (ls ! i) = [i]"
proof -
  have "filter (\<lambda>j. ls ! j = ls ! i) [0..<length ls] = filter (\<lambda>j. j = i) [0..<length ls]"
    using assms by (intro filter_cong) (auto simp: nth_eq_iff_index_eq)
  with assms show ?thesis by (simp add: positions_of_def filter_eq_upt)
qed

lemma all_positions_distinct:
  assumes "distinct ls"
  shows "concat (map (positions_of ls) ls) = [0..<length ls]"
proof -
  have "map (positions_of ls) ls = map (\<lambda>i. positions_of ls (ls ! i)) [0..<length ls]"
    by (simp add: map_equality_iff)
  also have "\<dots> = map (\<lambda>i. [i]) [0..<length ls]"
    using assms by (simp add: positions_of_distinct)
  finally show ?thesis by (simp add: concat_map_singleton)
qed

lemma getitem_cols_all_distinct:
  assumes "distinct (columns d)"
  shows "\<exists>d'. getitem_cols (columns d) d = Inr d' \<and> columns d' = columns d \<and> index d' = index d"
proof -
  have "find (\<lambda>l. l \<notin> set (columns d)) (columns d) = None"
    by (simp add: find_None_iff)
  then show ?thesis
    using assms by (simp add: getitem_cols_def Let_def all_positions_distinct map_nth)
qed


lemma first_labels_singletons: "first_labels (map (\<lambda>t. [t]) ts) = Inr ts"
  by (induction ts) auto

lemma concat_singletons: "concat (map (\<lambda>t. [t]) ts) = ts"
  by (induction ts) auto

lemma concat_cols_aligned:
  assumes "list_all (\<lambda>s. index s = index d) scols"
  shows "\<exists>d1. concat_cols (d # scols) = Inr d1 \<and> index d1 = index d
            \<and> columns d1 = columns d @ concat (map columns scols)"
  using assms by (simp add: concat_cols_def)

lemma concat_rows_aligned:
  assumes "list_all (\<lambda>s. columns s = cols) srows"
      and "columns d1 = cols @ extra" and "distinct (cols @ extra)"
  shows "\<exists>d2. concat_rows (d1 # srows) = Inr d2
            \<and> index d2 = index d1 @ concat (map index srows)
            \<and> columns d2 = cols @ extra"
proof (cases "list_all (\<lambda>x. columns x = columns d1) srows")
  case True
  then show ?thesis using assms by (simp add: concat_rows_def)
next
  case False
  from assms(1) have each: "\<forall>s \<in> set srows. columns s = cols"
    by (simp add: list_all_iff)
  with assms have nd: "\<not> list_ex (\<lambda>x. \<not> distinct (columns x)) (d1 # srows)"
    by (auto simp: list_ex_iff)
  from each have "set (concat (map columns srows)) \<subseteq> set (cols @ extra)"
    by auto
  then have "union_labels (cols @ extra) (concat (map columns srows)) = cols @ extra"
    by (rule union_labels_subset)
  moreover have "union_labels [] (cols @ extra) = cols @ extra"
    using assms(3) union_labels_fresh [of "cols @ extra" "[]"] by simp
  ultimately have u: "union_labels [] (concat (map columns (d1 # srows))) = cols @ extra"
    by (simp add: assms(2) union_labels_append del: append_assoc)
  show ?thesis
    using False nd u by (simp add: concat_rows_def Let_def)
qed

lemma apply_summaries_shape:
  assumes cs: "list_all (\<lambda>s. index s = index (data st)) (summary_cols st)"
      and ct: "map columns (summary_cols st) = map (\<lambda>t. [t]) ctitles"
      and rs: "list_all (\<lambda>s. columns s = columns (data st)) (summary_rows st)"
      and rt: "map index (summary_rows st) = map (\<lambda>t. [t]) rtitles"
      and dist: "distinct (columns (data st) @ ctitles)"
  shows "\<exists>st'. apply_summaries st = (Inr (), st')
           \<and> columns (data st') = columns (data st) @ ctitles
           \<and> index (data st') = index (data st) @ rtitles
           \<and> formatters st' = formatters st
           \<and> replace_all_nans_with st' = replace_all_nans_with st"
proof -
  let ?d = "data st"
  have fc: "first_labels (map columns (summary_cols st)) = Inr ctitles"
    by (simp add: ct first_labels_singletons)
  have fr: "first_labels (map index (summary_rows st)) = Inr rtitles"
    by (simp add: rt first_labels_singletons)
  from concat_cols_aligned [OF cs] obtain d1 where
    d1: "concat_cols (?d # summary_cols st) = Inr d1" "index d1 = index ?d"
        "columns d1 = columns ?d @ ctitles"
    by (auto simp: ct concat_singletons)
  from concat_rows_aligned [OF rs d1(3) dist] obtain d2 where
    d2: "concat_rows (d1 # summary_rows st) = Inr d2" "index d2 = index ?d @ rtitles"
        "columns d2 = columns ?d @ ctitles"
    by (auto simp: rt concat_singletons d1(2))
  from dist d2(3) have "distinct (columns d2)" by simp
  from getitem_cols_all_distinct [OF this] obtain d3 where
    d3: "getitem_cols (columns ?d @ ctitles) d2 = Inr d3" "columns d3 = columns ?d @ ctitles"
        "index d3 = index ?d @ rtitles"
    by (auto simp: d2)
  have rows: "set rtitles \<subseteq> set (index d3)" and cols: "set ctitles \<subseteq> set (columns d3)"
    by (auto simp: d3)
  note B = blank_shared_cells(1,2) [OF rows cols]
  show ?thesis
    by (simp add: apply_summaries_def Let_def fc fr d1 d2 d3 B)
qed

lemma T_labels [simp]: "index (T s) = columns s" "columns (T s) = index s"
  by (simp_all add: T_def)

lemma summary_frame_labels [simp]:
  "index (summary_frame t names nm vals) = names" "columns (summary_frame t names nm vals) = [t]"
  by (simp_all add: summary_frame_def)

lemma summary_output_shape:
  assumes "summary_output fts ax subs kw d = Inr out" and "ax = AxisInt 0 \<or> ax = AxisInt 1"
  shows "map columns out = map (\<lambda>t. [t]) (map snd fts)
       \<and> list_all (\<lambda>s. index s = summary_names ax d) out"
  using assms
proof (induction fts arbitrary: out)
  case Nil
  then show ?case by simp
next
  case (Cons ft fts)
  obtain f t where ft: "ft = (f, t)" by (cases ft)
  from Cons.prems ft obtain frame rest where
    o: "out = frame # rest" "summary_output fts ax subs kw d = Inr rest"
       "index frame = summary_names ax d" "columns frame = [t]"
    by (auto simp: df_apply_to_frame_def summary_names_def
             split: sum.splits option.splits if_splits)
  from Cons.IH [OF o(2) Cons.prems(2)] o ft show ?case by simp
qed

lemma multi_summary_axis_effect:
  assumes "multi_summary_axis funcs titles ax subs excl kw st = Inr st'"
  shows "data st' = data st \<and> formatters st' = formatters st
       \<and> replace_all_nans_with st' = replace_all_nans_with st
       \<and> (\<exists>nr nc. summary_rows st' = summary_rows st @ nr
             \<and> summary_cols st' = summary_cols st @ nc
             \<and> map index nr = map (\<lambda>t. [t]) (if ax = AxisInt 0 then map snd (zip funcs titles) else [])
             \<and> list_all (\<lambda>s. columns s = columns (data st)) nr
             \<and> map columns nc = map (\<lambda>t. [t]) (if ax = AxisInt 1 then map snd (zip funcs titles) else [])
             \<and> list_all (\<lambda>s. index s = index (data st)) nc)"
proof -
  from assms obtain out where
    out: "summary_output (zip funcs titles) ax (effective_subset ax subs excl (data st)) kw (data st)
            = Inr out"
    by (auto simp: multi_summary_axis_def split: sum.splits)
  show ?thesis
  proof (cases "ax = AxisInt 0")
    case True
    from summary_output_shape [OF out] True
    have s: "map columns out = map (\<lambda>t. [t]) (map snd (zip funcs titles))"
      "list_all (\<lambda>s. index s = columns (data st)) out"
      by (simp_all add: summary_names_def)
    from assms out True have "st' = st\<lparr>summary_rows := summary_rows st @ map T out\<rparr>"
      by (simp add: multi_summary_axis_def)
    with s True show ?thesis
      by (simp add: comp_def list_all_iff)
  next
    case False
    show ?thesis
    proof (cases "ax = AxisInt 1")
      case True
      from summary_output_shape [OF out] True
      have s: "map columns out = map (\<lambda>t. [t]) (map snd (zip funcs titles))"
        "list_all (\<lambda>s. index s = index (data st)) out"
        by (simp_all add: summary_names_def)
      from assms out True have "st' = st\<lparr>summary_cols := summary_cols st @ out\<rparr>"
        by (simp add: multi_summary_axis_def)
      with s True show ?thesis by simp
    next
      case False
      with \<open>ax \<noteq> AxisInt 0\<close> assms out have "st' = st"
        by (simp add: multi_summary_axis_def)
      with False \<open>ax \<noteq> AxisInt 0\<close> show ?thesis by simp
    qed
  qed
qed

lemma added_titles_Nil [simp]: "added_row_titles [] = []" "added_col_titles [] = []"
  by (simp_all add: added_row_titles_def added_col_titles_def)

lemma added_titles_Cons [simp]:
  "added_row_titles (c # cs) =
     (if c_axis c = AxisInt 0 \<or> c_axis c = AxisNone then call_titles c else [])
     @ added_row_titles cs"
  "added_col_titles (c # cs) =
     (if c_axis c = AxisInt 1 \<or> c_axis c = AxisNone then call_titles c else [])
     @ added_col_titles cs"
  by (simp_all add: added_row_titles_def added_col_titles_def)

lemma call_summary_effect:
  assumes "call_summary c st = Inr st'"
  shows "data st' = data st \<and> formatters st' = formatters st
       \<and> replace_all_nans_with st' = replace_all_nans_with st
       \<and> (\<exists>nr nc. summary_rows st' = summary_rows st @ nr
             \<and> summary_cols st' = summary_cols st @ nc
             \<and> map index nr = map (\<lambda>t. [t]) (added_row_titles [c])
             \<and> list_all (\<lambda>s. columns s = columns (data st)) nr
             \<and> map columns nc = map (\<lambda>t. [t]) (added_col_titles [c])
             \<and> list_all (\<lambda>s. index s = index (data st)) nc)"
proof (cases "c_axis c = AxisNone")
  case True
  with assms obtain st1 where
    s0: "multi_summary_axis (c_funcs c) (c_titles c) (AxisInt 0) None None (c_kwargs c) st = Inr st1"
    and s1: "multi_summary_axis (c_funcs c) (c_titles c) (AxisInt 1) None None (c_kwargs c) st1 = Inr st'"
    by (auto simp: call_summary_def multi_summary_def split: sum.splits)
  from multi_summary_axis_effect [OF s0] multi_summary_axis_effect [OF s1] True
  show ?thesis
    by (auto simp: call_titles_def)
next
  case False
  with assms have
    "multi_summary_axis (c_funcs c) (c_titles c) (c_axis c) (c_subset c) (c_exclude c) (c_kwargs c) st
       = Inr st'"
    by (simp add: call_summary_def multi_summary_def)
  from multi_summary_axis_effect [OF this] False
  show ?thesis
    by (auto simp: call_titles_def)
qed

lemma add_summaries_effect:
  assumes "add_summaries cs st = Inr st'"
  shows "data st' = data st \<and> formatters st' = formatters st
       \<and> replace_all_nans_with st' = replace_all_nans_with st
       \<and> (\<exists>nr nc. summary_rows st' = summary_rows st @ nr
             \<and> summary_cols st' = summary_cols st @ nc
             \<and> map index nr = map (\<lambda>t. [t]) (added_row_titles cs)
             \<and> list_all (\<lambda>s. columns s = columns (data st)) nr
             \<and> map columns nc = map (\<lambda>t. [t]) (added_col_titles cs)
             \<and> list_all (\<lambda>s. index s = index (data st)) nc)"
  using assms
proof (induction cs arbitrary: st)
  case Nil
  then show ?case by simp
next
  case (Cons c cs)
  from Cons.prems obtain st1 where
    c: "call_summary c st = Inr st1" and r: "add_summaries cs st1 = Inr st'"
    by (auto split: sum.splits)
  from call_summary_effect [OF c] obtain nr nc where
    e1: "data st1 = data st" "formatters st1 = formatters st"
        "replace_all_nans_with st1 = replace_all_nans_with st"
        "summary_rows st1 = summary_rows st @ nr" "summary_cols st1 = summary_cols st @ nc"
        "map index nr = map (\<lambda>t. [t]) (added_row_titles [c])"
        "list_all (\<lambda>s. columns s = columns (data st)) nr"
        "map columns nc = map (\<lambda>t. [t]) (added_col_titles [c])"
        "list_all (\<lambda>s. index s = index (data st)) nc"
    by blast
  from Cons.IH [OF r] obtain nr' nc' where
    e2: "data st' = data st1" "formatters st' = formatters st1"
        "replace_all_nans_with st' = replace_all_nans_with st1"
        "summary_rows st' = summary_rows st1 @ nr'" "summary_cols st' = summary_cols st1 @ nc'"
        "map index nr' = map (\<lambda>t. [t]) (added_row_titles cs)"
        "list_all (\<lambda>s. columns s = columns (data st1)) nr'"
        "map columns nc' = map (\<lambda>t. [t]) (added_col_titles cs)"
        "list_all (\<lambda>s. index s = index (data st1)) nc'"
    by blast
  have a: "summary_rows st' = summary_rows st @ (nr @ nr')
    \<and> summary_cols st' = summary_cols st @ (nc @ nc')
    \<and> map index (nr @ nr') = map (\<lambda>t. [t]) (added_row_titles (c # cs))
    \<and> list_all (\<lambda>s. columns s = columns (data st)) (nr @ nr')
    \<and> map columns (nc @ nc') = map (\<lambda>t. [t]) (added_col_titles (c # cs))
    \<and> list_all (\<lambda>s. index s = index (data st)) (nc @ nc')"
    using e1 e2 by simp
  have b: "data st' = data st" "formatters st' = formatters st"
    "replace_all_nans_with st' = replace_all_nans_with st"
    using e1 e2 by simp_all
  from a show ?case unfolding b by blast
qed

lemma apply_formatters_loop_valid:
  "list_all (\<lambda>f. f_axis f = AxisStr ''columns'' \<or> f_axis f = AxisStr ''rows'') fs \<Longrightarrow>
   fst (apply_formatters_loop fs d) = Inr ()"
proof (induction fs arbitrary: d)
  case Nil
  then show ?case by simp
next
  case (Cons f fs)
  then have "target_labels f d \<noteq> Inl axis_error"
    by (auto simp: target_labels_def axis_labels_def Let_def split: option.splits)
  with Cons show ?case
    by (auto split: sum.splits option.splits dest: target_labels_error)
qed

lemma first_repeated_distinct: "distinct ls \<Longrightarrow> first_repeated ls = None"
  by (induction ls) auto

lemma replace_nulls_distinct:
  "distinct (columns d) \<Longrightarrow>
   \<exists>d'. replace_nulls v d = Inr d' \<and> columns d' = columns d \<and> index d' = index d"
  by (simp add: replace_nulls_def first_repeated_distinct)

text \<open>
  C1 (as amended). Start from an object without summaries and add summaries by any chain of
  calls that do not raise. If the column labels of the table and the titles of the summary
  columns added are pairwise distinct, and every registered formatter has the axis
  \<^verbatim>\<open>'columns'\<close> or \<^verbatim>\<open>'rows'\<close>, then rendering returns a table whose columns are the
  original columns, in their order, followed by the summary columns in the order they were
  added, and whose rows are the original rows followed by the summary rows in the order
  they were added; so it has as many columns (rows) as the original plus the number of
  summary columns (rows) added. It is well-formed when the original table is.
\<close>

theorem summaries_extend_table:
  assumes "summary_rows st0 = []" and "summary_cols st0 = []"
      and "add_summaries calls st0 = Inr st"
      and "distinct (columns (data st0) @ added_col_titles calls)"
      and "list_all (\<lambda>f. f_axis f = AxisStr ''columns'' \<or> f_axis f = AxisStr ''rows'') (formatters st0)"
  shows "\<exists>d'. fst (get_formatted_df hb False st) = Inr (Frame d')
           \<and> columns d' = columns (data st0) @ added_col_titles calls
           \<and> index d' = index (data st0) @ added_row_titles calls
           \<and> length (columns d') = length (columns (data st0)) + length (summary_cols st)
           \<and> length (index d') = length (index (data st0)) + length (summary_rows st)
           \<and> (wf_df (data st0) \<longrightarrow> wf_df d')"
proof -
  from add_summaries_wf [OF assms(3)] assms(1,2) have
    w: "list_all wf_df (summary_rows st)" "list_all wf_df (summary_cols st)"
    by simp_all
  from add_summaries_effect [OF assms(3)] assms(1,2) have
    e: "data st = data st0" "formatters st = formatters st0"
       "map index (summary_rows st) = map (\<lambda>t. [t]) (added_row_titles calls)"
       "list_all (\<lambda>s. columns s = columns (data st)) (summary_rows st)"
       "map columns (summary_cols st) = map (\<lambda>t. [t]) (added_col_titles calls)"
       "list_all (\<lambda>s. index s = index (data st)) (summary_cols st)"
    by auto
  from e(3) have nr: "length (summary_rows st) = length (added_row_titles calls)"
    by (rule map_eq_imp_length_eq)
  from e(5) have nc: "length (summary_cols st) = length (added_col_titles calls)"
    by (rule map_eq_imp_length_eq)
  from assms(4) e(1) have dist: "distinct (columns (data st) @ added_col_titles calls)" by simp
  from apply_summaries_shape [OF e(6) e(5) e(4) e(3) dist] obtain st1 where
    m: "apply_summaries st = (Inr (), st1)"
       "columns (data st1) = columns (data st0) @ added_col_titles calls"
       "index (data st1) = index (data st0) @ added_row_titles calls"
       "formatters st1 = formatters st" "replace_all_nans_with st1 = replace_all_nans_with st"
    by (auto simp: e(1))
  obtain r d2 where l: "apply_formatters_loop (formatters st1) (data st1) = (r, d2)"
    by (cases "apply_formatters_loop (formatters st1) (data st1)")
  from apply_formatters_loop_valid [of "formatters st1" "data st1"] assms(5) l
  have r: "r = Inr ()" by (simp add: m(4) e(2))
  from apply_formatters_loop_labels [of "formatters st1" "data st1"] l
  have d2: "columns d2 = columns (data st0) @ added_col_titles calls"
    "index d2 = index (data st0) @ added_row_titles calls"
    by (simp_all add: m)
  have f: "apply_formatters st1 = (Inr (), st1\<lparr>data := d2\<rparr>)"
    by (simp add: apply_formatters_def l r)
  have "\<exists>d'. fst (get_formatted_df hb False st) = Inr (Frame d')
           \<and> columns d' = columns (data st0) @ added_col_titles calls
           \<and> index d' = index (data st0) @ added_row_titles calls
           \<and> length (columns d') = length (columns (data st0)) + length (summary_cols st)
           \<and> length (index d') = length (index (data st0)) + length (summary_rows st)"
  proof (cases "replace_all_nans_with st1")
    case None
    then show ?thesis
      by (simp add: get_formatted_df_def m(1) f Let_def d2 nr nc)
  next
    case (Some v)
    from assms(4) d2 have "distinct (columns d2)" by simp
    from replace_nulls_distinct [OF this, of v] obtain d3 where
      "replace_nulls v d2 = Inr d3" "columns d3 = columns d2" "index d3 = index d2"
      by blast
    with Some show ?thesis
      by (simp add: get_formatted_df_def m(1) f Let_def d2 nr nc)
  qed
  then obtain d' where
    d': "fst (get_formatted_df hb False st) = Inr (Frame d')"
        "columns d' = columns (data st0) @ added_col_titles calls"
        "index d' = index (data st0) @ added_row_titles calls"
        "length (columns d') = length (columns (data st0)) + length (summary_cols st)"
        "length (index d') = length (index (data st0)) + length (summary_rows st)"
    by blast
  from rendered_table_wf [OF d'(1) _ w] e(1) have "wf_df (data st0) \<longrightarrow> wf_df d'"
    by simp
  with d' show ?thesis by blast
qed

lemma add_summaries_example_totals:
  "add_summaries [total_both_call] example_pp = Inr example_totals"
  by (simp add: example_totals_def call_summary_def total_both_call_def multi_summary_def
                multi_summary_axis_def effective_subset_def df_apply_to_frame_def)

theorem summaries_extend_table_witness:
  "summary_rows example_pp = [] \<and> summary_cols example_pp = []
   \<and> add_summaries [total_both_call] example_pp = Inr example_totals
   \<and> distinct (columns (data example_pp) @ added_col_titles [total_both_call])
   \<and> list_all (\<lambda>f. f_axis f = AxisStr ''columns'' \<or> f_axis f = AxisStr ''rows'') (formatters example_pp)
   \<and> (\<exists>d'. fst (get_formatted_df two_row_renderer False example_totals) = Inr (Frame d')
          \<and> columns d' = [''A'', ''B'', ''Total'']
          \<and> index d' = [''x'', ''y'', ''Total'']
          \<and> length (columns d') = 2 + length (summary_cols example_totals)
          \<and> length (index d') = 2 + length (summary_rows example_totals)
          \<and> wf_df (data example_pp) \<and> wf_df d')"
proof -
  have e: "summary_rows example_pp = []" "summary_cols example_pp = []"
    "formatters example_pp = []"
    "columns (data example_pp) = [''A'', ''B'']" "index (data example_pp) = [''x'', ''y'']"
    by (simp_all add: example_pp_def init_def example_df_def)
  have t: "added_col_titles [total_both_call] = [''Total'']"
    "added_row_titles [total_both_call] = [''Total'']"
    by code_simp+
  have d: "distinct (columns (data example_pp) @ added_col_titles [total_both_call])"
    unfolding t e by simp
  have v: "list_all (\<lambda>f. f_axis f = AxisStr ''columns'' \<or> f_axis f = AxisStr ''rows'') (formatters example_pp)"
    unfolding e by simp
  have w: "wf_df (data example_pp)"
    by code_simp
  from summaries_extend_table [OF e(1,2) add_summaries_example_totals d v, of two_row_renderer]
  have "\<exists>d'. fst (get_formatted_df two_row_renderer False example_totals) = Inr (Frame d')
          \<and> columns d' = [''A'', ''B'', ''Total'']
          \<and> index d' = [''x'', ''y'', ''Total'']
          \<and> length (columns d') = 2 + length (summary_cols example_totals)
          \<and> length (index d') = 2 + length (summary_rows example_totals)
          \<and> wf_df (data example_pp) \<and> wf_df d'"
    unfolding t e using w by simp
  with e(1,2) add_summaries_example_totals d v show ?thesis by blast
qed

lemma add_summaries_example_dup:
  "add_summaries [total_col_call, total_col_call] example_pp = Inr example_dup"
  by (simp add: example_dup_def call_summary_def multi_summary_def multi_summary_axis_def
        effective_subset_def total_col_call_def df_apply_to_frame_def)

lemma render_example_dup:
  "fst (get_formatted_df two_row_renderer False example_dup) =
     Inr (Frame \<lparr>index = [''x'', ''y''],
            columns = [''A'', ''B'', ''Total'', ''Total'', ''Total'', ''Total''],
            cells = [[Num 1, Num 2, Num 3, Num 3, Num 3, Num 3],
                     [Num 3, Num 4, Num 7, Num 7, Num 7, Num 7]],
            index_names = [None], columns_names = [None]\<rparr>)"
  by code_simp

lemma summary_cols_example_dup: "length (summary_cols example_dup) = 2"
  by code_simp

text \<open>
  C1 as stated fails: add a summary column \<open>Total\<close> twice. The table has the columns
  \<open>A, B, Total, Total\<close> after the concatenation, and selecting the columns by the labels
  \<open>A, B, Total, Total\<close> takes both \<open>Total\<close> columns for each of the two requests: the
  rendered table has six columns, not four.
\<close>

theorem repeated_title_counterexample:
  "\<not> (\<forall>calls st d'.
         add_summaries calls example_pp = Inr st
         \<and> fst (get_formatted_df two_row_renderer False st) = Inr (Frame d')
         \<longrightarrow> length (columns d') = length (columns (data example_pp)) + length (summary_cols st))"
proof
  assume "\<forall>calls st d'.
         add_summaries calls example_pp = Inr st
         \<and> fst (get_formatted_df two_row_renderer False st) = Inr (Frame d')
         \<longrightarrow> length (columns d') = length (columns (data example_pp)) + length (summary_cols st)"
  from this add_summaries_example_dup render_example_dup
  have "length [''A'', ''B'', ''Total'', ''Total'', ''Total'', ''Total'']
          = length (columns (data example_pp)) + length (summary_cols example_dup)"
    by fastforce
  then show False
    by (simp add: summary_cols_example_dup example_pp_def init_def example_df_def)
qed

section \<open>What a render leaves behind, and the call with no axis\<close>

lemmas eval_defs = example_totals_def example_pp_def example_df_def init_def
  multi_summary_def multi_summary_axis_def effective_subset_def df_apply_to_frame_def
  summary_frame_def T_def column_values_def iteritems_def iterrows_def np_sum_def
  infer_column_def numeric_def
  df_ops Let_def upt_rec apply_formatters_def get_formatted_df_def styler_translate_def
  styler.truncate_def reindex_row_def merged_totals_def
  format_cells_def example_totals_bad_axis_def target_labels_def axis_labels_def
  digit_def

lemma example_totals_eq:
  "example_totals = example_pp\<lparr>
      summary_rows := [\<lparr>index = [''Total''], columns = [''A'', ''B''], cells = [[Num 4, Num 6]],
                        index_names = [None], columns_names = [None]\<rparr>],
      summary_cols := [\<lparr>index = [''x'', ''y''], columns = [''Total''], cells = [[Num 3], [Num 7]],
                        index_names = [None], columns_names = [None]\<rparr>]\<rparr>"
  by (simp add: eval_defs)

lemma merge_example_totals:
  "apply_summaries example_totals =
     (Inr (), example_totals\<lparr>data := merged_totals,
        table_styles := STYLES @
          [\<lparr>selector = ''tr:nth-child(3)'', props = SUMMARY_PROPERTIES\<rparr>,
           \<lparr>selector = ''td:nth-child(4)'', props = SUMMARY_PROPERTIES\<rparr>]\<rparr>)"
  unfolding example_totals_eq
  by (simp add: eval_defs)


lemma successful_render_restores_table:
  "fst (get_formatted_df hb h st) = Inr r \<Longrightarrow> data (snd (get_formatted_df hb h st)) = data st"
  by (auto simp: get_formatted_df_def Let_def split: prod.splits sum.splits option.splits if_splits)

text \<open>
  In general: a render that returns has put the table back and has appended one selector
  per summary to \<^verbatim>\<open>table_styles\<close>; a render whose formatters raise returns the object
  as the formatters left it, with the merged table in \<^verbatim>\<open>self.data\<close>.
\<close>

lemma apply_formatters_styles [simp]:
  "table_styles (snd (apply_formatters st)) = table_styles st"
  by (simp add: apply_formatters_def case_prod_beta)

lemma get_formatted_df_Inr:
  assumes "apply_summaries st = (Inr (), st1)" and "apply_formatters st1 = (Inr (), st2)"
  shows "snd (get_formatted_df hb h st) =
           st2\<lparr>self_index := index (data st2), self_columns := columns (data st2),
               data := data st\<rparr>"
  by (simp add: get_formatted_df_def assms Let_def split: option.split sum.split)

lemma get_formatted_df_success:
  assumes "fst (get_formatted_df hb h st) = Inr r"
  obtains st1 st2 where "apply_summaries st = (Inr (), st1)"
    and "apply_formatters st1 = (Inr (), st2)"
proof -
  obtain r1 st1 where m: "apply_summaries st = (r1, st1)"
    by (cases "apply_summaries st")
  obtain r2 st2 where f: "apply_formatters st1 = (r2, st2)"
    by (cases "apply_formatters st1")
  from assms m have r1: "r1 = Inr ()"
    by (cases r1) (simp_all add: get_formatted_df_def)
  from assms m f r1 have r2: "r2 = Inr ()"
    by (cases r2) (simp_all add: get_formatted_df_def)
  from m f r1 r2 show ?thesis by (auto intro: that)
qed

lemma successful_render_appends_selectors:
  assumes "fst (get_formatted_df hb h st) = Inr r"
  shows "table_styles (snd (get_formatted_df hb h st)) =
           table_styles st
           @ row_selectors (length (index (data st))) (length (summary_rows st))
           @ col_selectors (length (columns (data st))) (length (index_names (data st)))
               (length (summary_cols st))"
proof -
  from assms obtain st1 st2 where m: "apply_summaries st = (Inr (), st1)"
    and f: "apply_formatters st1 = (Inr (), st2)"
    by (rule get_formatted_df_success)
  from m obtain cn rn d1 d2 d3 where
    "st1 = st\<lparr>data := (blank_shared rn cn d3)
                         \<lparr>index_names := index_names (data st),
                          columns_names := columns_names (data st)\<rparr>,
                table_styles := table_styles st
                  @ row_selectors (length (index (data st))) (length (summary_rows st))
                  @ col_selectors (length (columns (data st))) (length (index_names (data st)))
                      (length (summary_cols st))\<rparr>"
    by (rule apply_summaries_Inr)
  then have
    "table_styles st1 = table_styles st
           @ row_selectors (length (index (data st))) (length (summary_rows st))
           @ col_selectors (length (columns (data st))) (length (index_names (data st)))
               (length (summary_cols st))"
    by simp
  moreover from f have "table_styles st2 = table_styles st1"
    using apply_formatters_styles [of st1] by simp
  ultimately show ?thesis by (simp add: get_formatted_df_Inr [OF m f])
qed

lemma failed_formatters_leave_working_table:
  assumes "apply_summaries st = (Inr (), st1)" and "fst (apply_formatters st1) = Inl e"
  shows "get_formatted_df hb h st = (Inl e, snd (apply_formatters st1))"
  using assms
  by (cases "apply_formatters st1") (simp add: get_formatted_df_def)

text \<open>
  C3. On the table with a summary row and a summary column, whatever the layout of head
  and body: the first render returns a tree and puts the table back, but leaves the two
  selectors it appended in \<^verbatim>\<open>table_styles\<close>; the second render appends them again, and
  its tree carries them twice, so the two renders do not return the same tree.
\<close>

theorem second_render_repeats_selectors:
  "\<forall>hb. \<exists>t1 t2.
     fst (get_formatted_df hb True example_totals) = Inr (Html t1)
     \<and> data (snd (get_formatted_df hb True example_totals)) = data example_totals
     \<and> fst (get_formatted_df hb True (snd (get_formatted_df hb True example_totals)))
         = Inr (Html t2)
     \<and> tree_table_styles t1 = STYLES @
          [\<lparr>selector = ''tr:nth-child(3)'', props = SUMMARY_PROPERTIES\<rparr>,
           \<lparr>selector = ''td:nth-child(4)'', props = SUMMARY_PROPERTIES\<rparr>]
     \<and> tree_table_styles t2 = STYLES @
          [\<lparr>selector = ''tr:nth-child(3)'', props = SUMMARY_PROPERTIES\<rparr>,
           \<lparr>selector = ''td:nth-child(4)'', props = SUMMARY_PROPERTIES\<rparr>,
           \<lparr>selector = ''tr:nth-child(3)'', props = SUMMARY_PROPERTIES\<rparr>,
           \<lparr>selector = ''td:nth-child(4)'', props = SUMMARY_PROPERTIES\<rparr>]
     \<and> t2 \<noteq> t1"
proof
  fix hb
  let ?sel = "[\<lparr>selector = ''tr:nth-child(3)'', props = SUMMARY_PROPERTIES\<rparr>,
               \<lparr>selector = ''td:nth-child(4)'', props = SUMMARY_PROPERTIES\<rparr>]"
  let ?st1 = "example_totals\<lparr>self_index := index merged_totals,
                 self_columns := columns merged_totals, table_styles := STYLES @ ?sel\<rparr>"
  have f: "formatters example_totals = []" "replace_all_nans_with example_totals = None"
    "table_styles example_totals = STYLES"
    by (simp_all add: example_totals_eq example_pp_def init_def)
  have r1: "get_formatted_df hb True example_totals =
      (Inr (Html (styler_translate hb (styler.truncate (?st1\<lparr>data := merged_totals\<rparr>)))), ?st1)"
    unfolding get_formatted_df_def merge_example_totals
    by (simp add: apply_formatters_def f example_totals_eq example_pp_def init_def)
  have m2: "apply_summaries ?st1 =
     (Inr (), ?st1\<lparr>data := merged_totals, table_styles := STYLES @ ?sel @ ?sel\<rparr>)"
    unfolding example_totals_eq
    by (simp add: eval_defs)
  have r2: "fst (get_formatted_df hb True ?st1) =
      Inr (Html (styler_translate hb (styler.truncate
        (?st1\<lparr>data := merged_totals, table_styles := STYLES @ ?sel @ ?sel\<rparr>))))"
    unfolding get_formatted_df_def m2
    by (simp add: apply_formatters_def f example_totals_eq example_pp_def init_def merged_totals_def)
  show "\<exists>t1 t2.
     fst (get_formatted_df hb True example_totals) = Inr (Html t1)
     \<and> data (snd (get_formatted_df hb True example_totals)) = data example_totals
     \<and> fst (get_formatted_df hb True (snd (get_formatted_df hb True example_totals)))
         = Inr (Html t2)
     \<and> tree_table_styles t1 = STYLES @ ?sel
     \<and> tree_table_styles t2 = STYLES @
          [\<lparr>selector = ''tr:nth-child(3)'', props = SUMMARY_PROPERTIES\<rparr>,
           \<lparr>selector = ''td:nth-child(4)'', props = SUMMARY_PROPERTIES\<rparr>,
           \<lparr>selector = ''tr:nth-child(3)'', props = SUMMARY_PROPERTIES\<rparr>,
           \<lparr>selector = ''td:nth-child(4)'', props = SUMMARY_PROPERTIES\<rparr>]
     \<and> t2 \<noteq> t1"
    unfolding r1 snd_conv fst_conv r2
    by (auto simp: styler_translate_def styler.truncate_def)
qed

text \<open>
  C4. On the same table with a formatter whose axis is \<^verbatim>\<open>'index'\<close>: the render raises
  the \<^verbatim>\<open>ValueError\<close>, and the stored table is then the merged table, with the summary
  row and column, not the table stored before the call.
\<close>

theorem failed_render_keeps_merged_table:
  "\<forall>hb as_html.
     fst (get_formatted_df hb as_html example_totals_bad_axis) = Inl axis_error
     \<and> data example_totals_bad_axis = example_df
     \<and> data (snd (get_formatted_df hb as_html example_totals_bad_axis)) = merged_totals
     \<and> merged_totals \<noteq> example_df"
proof (intro allI)
  fix hb as_html
  have b: "example_totals_bad_axis = example_totals\<lparr>formatters := [bad_formatter]\<rparr>"
    by (simp add: example_totals_bad_axis_def format_cells_def example_totals_eq example_pp_def
                  init_def bad_formatter_def)
  have m: "apply_summaries example_totals_bad_axis =
     (Inr (), example_totals_bad_axis\<lparr>data := merged_totals,
        table_styles := STYLES @
          [\<lparr>selector = ''tr:nth-child(3)'', props = SUMMARY_PROPERTIES\<rparr>,
           \<lparr>selector = ''td:nth-child(4)'', props = SUMMARY_PROPERTIES\<rparr>]\<rparr>)"
    unfolding b apply_summaries_formatters_indep merge_example_totals by simp
  show "fst (get_formatted_df hb as_html example_totals_bad_axis) = Inl axis_error
     \<and> data example_totals_bad_axis = example_df
     \<and> data (snd (get_formatted_df hb as_html example_totals_bad_axis)) = merged_totals
     \<and> merged_totals \<noteq> example_df"
    unfolding get_formatted_df_def m
    by (simp add: b apply_formatters_def target_labels_def axis_labels_def bad_formatter_def
                  example_totals_eq example_pp_def init_def merged_totals_def example_df_def)
qed

lemma axis_none_ignores_subset:
  "multi_summary funcs titles AxisNone subs excl kw st =
     (case multi_summary funcs titles (AxisInt 0) None None kw st of
        Inl e \<Rightarrow> Inl e
      | Inr st' \<Rightarrow> multi_summary funcs titles (AxisInt 1) None None kw st')"
  by (simp add: multi_summary_def split: sum.splits)

text \<open>
  C7. \<^verbatim>\<open>multi_summary([np.sum], ['Total'], axis=None, subset=['A'])\<close> stores the sums
  of all columns and of all rows; the call with axis 0 followed by the call with axis 1, each
  with \<^verbatim>\<open>subset=['A']\<close>, stores a missing value for column \<open>B\<close> and for both rows.
\<close>

theorem axis_none_drops_subset:
  "multi_summary [np_sum] [''Total''] AxisNone (Some [''A'']) None [] example_pp
     = Inr example_totals
   \<and> map cells (summary_rows example_totals) = [[[Num 4, Num 6]]]
   \<and> map cells (summary_cols example_totals) = [[[Num 3], [Num 7]]]
   \<and> (\<exists>st1 st2.
        multi_summary [np_sum] [''Total''] (AxisInt 0) (Some [''A'']) None [] example_pp = Inr st1
        \<and> multi_summary [np_sum] [''Total''] (AxisInt 1) (Some [''A'']) None [] st1 = Inr st2
        \<and> map cells (summary_rows st2) = [[[Num 4, NaN]]]
        \<and> map cells (summary_cols st2) = [[[PyNone], [PyNone]]])"
  by (simp add: eval_defs summary_output_Some summary_vals_def iter_fn_def summary_names_def
                summary_level_names_def)

end
